theory Spec2Isabelle
  imports Main "HOL-Library.Word"
begin

section \<open>Go strings: bytes, runes and UTF-8\<close>

text \<open>
  A Go \<open>string\<close> is a sequence of bytes; it is modelled by \<open>string\<close> (a list of 8-bit
  \<open>char\<close>s). A \<open>rune\<close> is a Unicode code point. The conversion \<open>[]rune(s)\<close> decodes the
  bytes as UTF-8, one rune per well-formed sequence and the replacement rune \<open>U+FFFD\<close> for
  every byte that starts no well-formed sequence; \<open>string(runes)\<close> encodes each rune.
\<close>

type_synonym rune = nat

definition RuneError :: rune where
  "RuneError = 0xFFFD"

definition MaxRune :: rune where
  "MaxRune = 0x10FFFF"

definition byte :: "char \<Rightarrow> nat" where
  "byte c = of_char c"

definition backslash :: char where
  "backslash = CHR 0x5C"

text \<open>A continuation byte lies in \<open>0x80..0xBF\<close> (\<open>locb\<close>, \<open>hicb\<close> of package utf8).\<close>

definition cont :: "nat \<Rightarrow> nat" where
  "cont b = b - 0x80"

definition inRange :: "nat \<Rightarrow> nat \<Rightarrow> nat \<Rightarrow> bool" where
  "inRange lo hi b = (lo \<le> b \<and> b \<le> hi)"

text \<open>
  \<open>utf8.DecodeRuneInString\<close>: the first rune of the string and its width in bytes. The
  accepted range of the second byte depends on the first one (\<open>acceptRanges\<close>): it excludes
  overlong forms, surrogates and values above \<open>MaxRune\<close>. Any malformed or cut-off sequence
  gives \<open>(RuneError, 1)\<close>, the empty string \<open>(RuneError, 0)\<close>.
\<close>

definition decodeRune :: "string \<Rightarrow> rune \<times> nat" where
  "decodeRune s =
     (case s of
        [] \<Rightarrow> (RuneError, 0)
      | c0 # t \<Rightarrow>
         (let s0 = byte c0 in
          if s0 < 0x80 then (s0, 1)
          else if s0 < 0xC2 \<or> 0xF4 < s0 then (RuneError, 1)
          else if s0 < 0xE0 then
            (case t of
               c1 # _ \<Rightarrow>
                 if inRange 0x80 0xBF (byte c1)
                 then ((s0 - 0xC0) * 64 + cont (byte c1), 2)
                 else (RuneError, 1)
             | _ \<Rightarrow> (RuneError, 1))
          else if s0 < 0xF0 then
            (case t of
               c1 # c2 # _ \<Rightarrow>
                 if \<not> inRange (if s0 = 0xE0 then 0xA0 else 0x80)
                              (if s0 = 0xED then 0x9F else 0xBF) (byte c1)
                 then (RuneError, 1)
                 else if \<not> inRange 0x80 0xBF (byte c2) then (RuneError, 1)
                 else ((s0 - 0xE0) * 4096 + cont (byte c1) * 64 + cont (byte c2), 3)
             | _ \<Rightarrow> (RuneError, 1))
          else
            (case t of
               c1 # c2 # c3 # _ \<Rightarrow>
                 if \<not> inRange (if s0 = 0xF0 then 0x90 else 0x80)
                              (if s0 = 0xF4 then 0x8F else 0xBF) (byte c1)
                 then (RuneError, 1)
                 else if \<not> inRange 0x80 0xBF (byte c2) then (RuneError, 1)
                 else if \<not> inRange 0x80 0xBF (byte c3) then (RuneError, 1)
                 else ((s0 - 0xF0) * 262144 + cont (byte c1) * 4096
                        + cont (byte c2) * 64 + cont (byte c3), 4)
             | _ \<Rightarrow> (RuneError, 1))))"

text \<open>\<open>[]rune(s)\<close>: decode rune after rune until the string is used up.\<close>

function runes :: "string \<Rightarrow> rune list" where
  "runes s = (if s = [] then [] else fst (decodeRune s) # runes (drop (snd (decodeRune s)) s))"
  by pat_completeness auto
termination
  by (relation "measure length")
    (auto simp: decodeRune_def Let_def split: list.splits)

declare runes.simps [simp del]

text \<open>
  \<open>utf8.AppendRune\<close>: the UTF-8 encoding of a rune; surrogates and values above
  \<open>MaxRune\<close> are encoded as \<open>RuneError\<close>.
\<close>

definition encodeRune :: "rune \<Rightarrow> string" where
  "encodeRune r =
     (if r \<le> 0x7F then [char_of r]
      else if r \<le> 0x7FF then [char_of (0xC0 + r div 64), char_of (0x80 + r mod 64)]
      else if MaxRune < r \<or> (0xD800 \<le> r \<and> r \<le> 0xDFFF)
        then [char_of (0xEF::nat), char_of (0xBF::nat), char_of (0xBD::nat)]
      else if r \<le> 0xFFFF
        then [char_of (0xE0 + r div 4096), char_of (0x80 + (r div 64) mod 64),
              char_of (0x80 + r mod 64)]
      else [char_of (0xF0 + r div 262144), char_of (0x80 + (r div 4096) mod 64),
            char_of (0x80 + (r div 64) mod 64), char_of (0x80 + r mod 64)])"

text \<open>\<open>string(rs)\<close> for a rune slice \<open>rs\<close>.\<close>

definition string_of_runes :: "rune list \<Rightarrow> string" where
  "string_of_runes rs = concat (map encodeRune rs)"

text \<open>A Unicode scalar value: at most \<open>MaxRune\<close> and not a surrogate.\<close>

definition validRune :: "rune \<Rightarrow> bool" where
  "validRune r = (r \<le> MaxRune \<and> \<not> (0xD800 \<le> r \<and> r \<le> 0xDFFF))"

text \<open>
  \<open>strings.ReplaceAll(s, old, new)\<close>: every non-overlapping occurrence of \<open>old\<close>, found
  from left to right, is replaced by \<open>new\<close>. With an empty \<open>old\<close> the library inserts
  \<open>new\<close> before every rune and at the end.
\<close>

function ReplaceAll :: "string \<Rightarrow> string \<Rightarrow> string \<Rightarrow> string" where
  "ReplaceAll s old new =
     (if old = [] then
        new @ (if s = [] then []
               else take (snd (decodeRune s)) s @ ReplaceAll (drop (snd (decodeRune s)) s) old new)
      else if s = [] then []
      else if take (length old) s = old then new @ ReplaceAll (drop (length old) s) old new
      else hd s # ReplaceAll (tl s) old new)"
  by pat_completeness auto
termination
  by (relation "measure (\<lambda>(s, old, new). length s)")
    (auto simp: decodeRune_def Let_def split: list.splits)

declare ReplaceAll.simps [simp del]

section \<open>The tag escaper\<close>

definition stringLimit :: nat where
  "stringLimit = 1024"

text \<open>The three replacements of \<open>escapeTagValue\<close>, in the order of the source.\<close>

definition escaped :: "string \<Rightarrow> string" where
  "escaped v =
     (let withoutCommas = ReplaceAll v '','' [backslash, CHR '',''];
          withoutEquals = ReplaceAll withoutCommas ''='' [backslash, CHR ''=''] in
      ReplaceAll withoutEquals '' '' [backslash, CHR '' ''])"

definition escapeTagValue :: "string \<Rightarrow> string" where
  "escapeTagValue v =
     (let rs = runes (escaped v) in
      if length rs \<le> stringLimit then escaped v
      else string_of_runes (take (stringLimit - 3) rs) @ ''...'')"

text \<open>
  The reader's side of a tag value, as the line protocol and the specification describe it:
  a comma, an equals sign and a space delimit, unless a backslash stands right before
  them. \<open>splitUnescaped\<close> cuts a string at its unescaped delimiters, \<open>unescape\<close> undoes
  the escapes of a piece.
\<close>

definition isDelim :: "char \<Rightarrow> bool" where
  "isDelim c = (c = CHR '','' \<or> c = CHR ''='' \<or> c = CHR '' '')"

fun unescape :: "string \<Rightarrow> string" where
  "unescape (a # b # cs) =
     (if a = backslash \<and> isDelim b then b # unescape cs else a # unescape (b # cs))"
| "unescape cs = cs"

fun splitFrom :: "string \<Rightarrow> string \<Rightarrow> string list" where
  "splitFrom piece (a # b # cs) =
     (if a = backslash \<and> isDelim b then splitFrom (piece @ [a, b]) cs
      else if isDelim a then piece # splitFrom [] (b # cs)
      else splitFrom (piece @ [a]) (b # cs))"
| "splitFrom piece [a] = (if isDelim a then [piece, []] else [piece @ [a]])"
| "splitFrom piece [] = [piece]"

definition splitUnescaped :: "string \<Rightarrow> string list" where
  "splitUnescaped s = splitFrom [] s"

text \<open>What the three replacements do to one character.\<close>

definition escapeChar :: "char \<Rightarrow> string" where
  "escapeChar c = (if isDelim c then [backslash, c] else [c])"

text \<open>The two bytes of the UTF-8 encoding of \<open>U+00E9\<close>, for examples.\<close>

definition e_acute :: string where
  "e_acute = [CHR 0xC3, CHR 0xA9]"

section \<open>The resilient transport\<close>

text \<open>
  Go's \<open>error\<close> is modelled by the text of its \<open>Error()\<close> method, a nil error or nil
  pointer by \<open>None\<close>. Of \<open>http.Response\<close> the model keeps the fields the program reads;
  \<open>Body\<close> is what \<open>io.ReadAll(resp.Body)\<close> returns.
\<close>

type_synonym error = string

record Response =
  StatusCode :: int
  Status :: string
  Body :: "error + string"

definition retryCount :: nat where
  "retryCount = 3"

definition shouldRetry :: "error option \<Rightarrow> Response option \<Rightarrow> bool" where
  "shouldRetry err resp =
     (if err \<noteq> None then True
      else case resp of
        None \<Rightarrow> True
      | Some r \<Rightarrow>
          (if StatusCode r = 500 \<or> StatusCode r = 502 \<or> StatusCode r = 503 \<or> StatusCode r = 504
           then True else False))"

text \<open>
  The wrapped \<open>http.RoundTripper\<close> is any stateful procedure: from its state \<open>'s\<close> (the
  network, the server) one call gives a response, an error, and the next state. The request
  is the same at every call (the transport re-supplies the buffered body before each one),
  so it is not a parameter.
\<close>

type_synonym 's RoundTripper = "'s \<Rightarrow> (Response option \<times> error option) \<times> 's"

text \<open>What one run of \<open>RoundTrip\<close> does besides calling the wrapped transport.\<close>

datatype effect =
    Sleep nat
  | DiscardBody
  | LogPreviousFailed string
  | LogRetry nat

record 's RoundTripResult =
  lastResp :: "Response option"
  lastErr :: "error option"
  retries :: nat
  after :: 's
  effects :: "effect list"

text \<open>The \<open>for\<close> loop of \<open>RoundTrip\<close> (lines 113 to 129); \<open>math.Pow(2, retries)\<close> seconds.\<close>

function retryLoop :: "'s RoundTripper \<Rightarrow> 's RoundTripResult \<Rightarrow> 's RoundTripResult" where
  "retryLoop transport st =
     (if shouldRetry (lastErr st) (lastResp st) \<and> retries st < retryCount then
        (let backoff = 2 ^ retries st;
             fx = [Sleep backoff]
               @ (case lastResp st of Some r \<Rightarrow> [DiscardBody] | None \<Rightarrow> [])
               @ (case lastResp st of
                    Some r \<Rightarrow> if Status r \<noteq> [] then [LogPreviousFailed (Status r)] else []
                  | None \<Rightarrow> [])
               @ [LogRetry (retries st + 1)];
             ((resp', err'), s') = transport (after st)
         in retryLoop transport
              \<lparr>lastResp = resp', lastErr = err', retries = retries st + 1, after = s',
               effects = effects st @ fx\<rparr>)
      else st)"
  by pat_completeness auto
termination
  by (relation "measure (\<lambda>(transport, st). retryCount - retries st)") (auto split: prod.splits)

declare retryLoop.simps [simp del]

definition RoundTrip :: "'s RoundTripper \<Rightarrow> 's \<Rightarrow> 's RoundTripResult" where
  "RoundTrip transport s =
     (let ((resp0, err0), s0) = transport s in
      retryLoop transport
        \<lparr>lastResp = resp0, lastErr = err0, retries = 0, after = s0, effects = []\<rparr>)"

text \<open>
  A transport that plays a fixed script of outcomes, one per call, and reports a transport
  error once the script is used up.
\<close>

fun scripted :: "(Response option \<times> error option) list RoundTripper" where
  "scripted [] = ((None, Some ''connection refused''), [])"
| "scripted (x # xs) = (x, xs)"

definition status_only :: "int \<Rightarrow> Response" where
  "status_only n = \<lparr>StatusCode = n, Status = [], Body = Inr []\<rparr>"

text \<open>
  The state of the wrapped transport after \<open>n\<close> calls, and what call number \<open>n\<close>
  (from 0) returns.
\<close>

definition state_after :: "'s RoundTripper \<Rightarrow> 's \<Rightarrow> nat \<Rightarrow> 's" where
  "state_after transport s n = ((\<lambda>x. snd (transport x)) ^^ n) s"

definition outcome :: "'s RoundTripper \<Rightarrow> 's \<Rightarrow> nat \<Rightarrow> Response option \<times> error option" where
  "outcome transport s n = fst (transport (state_after transport s n))"

text \<open>An outcome after which \<open>shouldRetry\<close> holds.\<close>

definition retryable :: "Response option \<times> error option \<Rightarrow> bool" where
  "retryable out = shouldRetry (snd out) (fst out)"

text \<open>
  What an \<open>http.RoundTripper\<close> returns, by its contract: a response or an error, never
  a nil response with a nil error.
\<close>

definition responseOrError :: "Response option \<times> error option \<Rightarrow> bool" where
  "responseOrError out = (fst out \<noteq> None \<or> snd out \<noteq> None)"

text \<open>
  The retry trigger in the words of the specification: the transport returned an error,
  or a response with status 500, 502, 503 or 504.
\<close>

definition retryTrigger_spec :: "error option \<Rightarrow> Response option \<Rightarrow> bool" where
  "retryTrigger_spec err resp =
     (err \<noteq> None \<or>
      (case resp of None \<Rightarrow> False | Some r \<Rightarrow> StatusCode r \<in> {500, 502, 503, 504}))"

section \<open>Formatting\<close>

text \<open>\<open>%t\<close> of a bool and \<open>%d\<close>, \<open>%v\<close> of an integer, as package fmt prints them.\<close>

definition fmtBool :: "bool \<Rightarrow> string" where
  "fmtBool b = (if b then ''true'' else ''false'')"

definition digit :: "nat \<Rightarrow> char" where
  "digit d = ''0123456789'' ! d"

function fmtNat :: "nat \<Rightarrow> string" where
  "fmtNat n = (if n < 10 then [digit n] else fmtNat (n div 10) @ [digit (n mod 10)])"
  by pat_completeness auto
termination
  by (relation "measure id") auto

declare fmtNat.simps [simp del]

definition fmtInt :: "int \<Rightarrow> string" where
  "fmtInt i = (if i < 0 then ''-'' @ fmtNat (nat (- i)) else fmtNat (nat i))"

text \<open>
  \<open>fmt.Sprintln\<close> of string operands (as \<open>log.Fatalln\<close> and \<open>log.Println\<close> format them):
  a space between any two operands and a newline at the end.
\<close>

fun Sprintln :: "string list \<Rightarrow> string" where
  "Sprintln [] = [CHR 0x0A]"
| "Sprintln [x] = x @ [CHR 0x0A]"
| "Sprintln (x # y # zs) = x @ '' '' @ Sprintln (y # zs)"

section \<open>Data model\<close>

text \<open>Of each struct the model keeps the fields that the program reads.\<close>

record Bucket =
  ID :: string
  Type :: string
  Client :: string
  Hostname :: string

text \<open>
  An event: \<open>Timestamp\<close> is the value of \<open>event.Timestamp.Unix()\<close>, \<open>Duration\<close> a float64
  of type \<open>'f\<close> that only \<open>%.3f\<close> reads, \<open>Data\<close> the undecoded \<open>json.RawMessage\<close>.
\<close>

record ('raw, 'f) Event =
  Timestamp :: int
  Duration :: 'f
  Data :: 'raw

record WebTabCurrent =
  URL :: string
  Title :: string
  Audible :: bool
  Incognito :: bool

record AppEditorActivity =
  File :: string
  Project :: string
  Language :: string

record CurrentWindow =
  App :: string
  Title :: string

record AfkStatus =
  Status :: string

record StopWatch =
  Label :: string
  Running :: bool

record Config =
  Bucket :: string
  InfluxDBHost :: string
  InfluxDBApiToken :: string
  Org :: string
  ActivityWatchUrl :: string

text \<open>The field of \<open>url.URL\<close> that the program reads.\<close>

record url_URL =
  Host :: string

definition bucketsApiPath :: string where
  "bucketsApiPath = ''/api/0/buckets''"

definition webTabCurrentType :: string where
  "webTabCurrentType = ''web.tab.current''"

definition appEditorType :: string where
  "appEditorType = ''app.editor.activity''"

definition currentWindowType :: string where
  "currentWindowType = ''currentwindow''"

definition stopwatchType :: string where
  "stopwatchType = ''general.stopwatch''"

definition afkType :: string where
  "afkType = ''afkstatus''"

datatype Request =
    GET string
  | POST string "(string \<times> string) list" string

text \<open>
  The library and the outside world, as parameters: the decoders of \<open>encoding/json\<close> for
  each payload shape, \<open>url.Parse\<close>, the \<open>%.3f\<close> rendering of a float64, the gzip writer
  (the compressed bytes and the error of \<open>Close\<close>), the URL of a source's events request
  (lines 222 and 223: it depends on the clock), and \<open>client.Do\<close>, which gives an error or a
  response.
\<close>

record ('raw, 'f) env =
  unmarshalWebTab :: "'raw \<Rightarrow> error + WebTabCurrent"
  unmarshalEditor :: "'raw \<Rightarrow> error + AppEditorActivity"
  unmarshalWindow :: "'raw \<Rightarrow> error + CurrentWindow"
  unmarshalStopWatch :: "'raw \<Rightarrow> error + StopWatch"
  unmarshalAfk :: "'raw \<Rightarrow> error + AfkStatus"
  unmarshalEvents :: "string \<Rightarrow> error + ('raw, 'f) Event list"
  unmarshalBuckets :: "string \<Rightarrow> error + Bucket list"
  urlParse :: "string \<Rightarrow> error + url_URL"
  fmt3f :: "'f \<Rightarrow> string"
  gzip :: "string \<Rightarrow> string \<times> error option"
  eventsUrl :: "Config \<Rightarrow> string \<Rightarrow> string"
  Do :: "Request \<Rightarrow> error + Response"

section \<open>The event transcoder\<close>

text \<open>Why an event gives no record; each is one \<open>log.Printf\<close> line followed by \<open>continue\<close>.\<close>

datatype skip =
    ErrorUnmarshallingEventData error
  | ErrorParsingURL string error
  | SkippingUnknownEventType string

text \<open>The body of the loop over the events (lines 248 to 352): the \<open>switch\<close> on the type.\<close>

definition renderEvent ::
  "('raw, 'f) env \<Rightarrow> Bucket \<Rightarrow> ('raw, 'f) Event \<Rightarrow> skip + string" where
  "renderEvent e entry event =
     (if Type entry = webTabCurrentType then
        (case unmarshalWebTab e (Data event) of
           Inl er \<Rightarrow> Inl (ErrorUnmarshallingEventData er)
         | Inr data \<Rightarrow>
            (case urlParse e (URL data) of
               Inl er \<Rightarrow> Inl (ErrorParsingURL (URL data) er)
             | Inr u \<Rightarrow>
                (let cleanUrl = (if Host u = [] then [] else '',url='' @ Host u) in
                 Inr (Type entry @ '',client='' @ Client entry
                      @ '',hostname='' @ escapeTagValue (Hostname entry) @ cleanUrl
                      @ '' duration='' @ fmt3f e (Duration event)
                      @ '',audible='' @ fmtBool (Audible data)
                      @ '',incognito='' @ fmtBool (Incognito data)
                      @ '' '' @ fmtInt (Timestamp event) @ [CHR 0x0A]))))
      else if Type entry = appEditorType then
        (case unmarshalEditor e (Data event) of
           Inl er \<Rightarrow> Inl (ErrorUnmarshallingEventData er)
         | Inr data \<Rightarrow>
             Inr (Type entry @ '',client='' @ Client entry
                  @ '',hostname='' @ escapeTagValue (Hostname entry)
                  @ '',project='' @ escapeTagValue (Project data)
                  @ '',language='' @ escapeTagValue (Language data)
                  @ '',file='' @ escapeTagValue (File data)
                  @ '' duration='' @ fmt3f e (Duration event)
                  @ '' '' @ fmtInt (Timestamp event) @ [CHR 0x0A]))
      else if Type entry = currentWindowType then
        (case unmarshalWindow e (Data event) of
           Inl er \<Rightarrow> Inl (ErrorUnmarshallingEventData er)
         | Inr data \<Rightarrow>
             Inr (Type entry @ '',client='' @ Client entry
                  @ '',hostname='' @ escapeTagValue (Hostname entry)
                  @ '',app='' @ escapeTagValue (App data)
                  @ '' duration='' @ fmt3f e (Duration event)
                  @ '' '' @ fmtInt (Timestamp event) @ [CHR 0x0A]))
      else if Type entry = stopwatchType then
        (case unmarshalStopWatch e (Data event) of
           Inl er \<Rightarrow> Inl (ErrorUnmarshallingEventData er)
         | Inr data \<Rightarrow>
            (let label = (if Label data = [] then []
                          else '',label='' @ escapeTagValue (Label data)) in
             Inr (Type entry @ '',client='' @ Client entry
                  @ '',hostname='' @ escapeTagValue (Hostname entry) @ label
                  @ '' duration='' @ fmt3f e (Duration event)
                  @ '',running='' @ fmtBool (Running data)
                  @ '' '' @ fmtInt (Timestamp event) @ [CHR 0x0A])))
      else if Type entry = afkType then
        (case unmarshalAfk e (Data event) of
           Inl er \<Rightarrow> Inl (ErrorUnmarshallingEventData er)
         | Inr data \<Rightarrow>
             Inr (Type entry @ '',client='' @ Client entry
                  @ '',hostname='' @ escapeTagValue (Hostname entry)
                  @ '' duration='' @ fmt3f e (Duration event)
                  @ '',status='' @ [CHR 0x22] @ AfkStatus.Status data @ [CHR 0x22]
                  @ '' '' @ fmtInt (Timestamp event) @ [CHR 0x0A]))
      else Inl (SkippingUnknownEventType (Type entry)))"

section \<open>The harvester\<close>

text \<open>
  The state the tasks share: the payload buffer, the failure counter (an \<open>atomic.Int64\<close>)
  and the lines logged.
\<close>

datatype logline =
    Skipped skip
  | ApiError string

record harvest_state =
  payload :: string
  apiErrors :: "64 word"
  logged :: "logline list"

definition handleApiError :: "string \<Rightarrow> harvest_state \<Rightarrow> harvest_state" where
  "handleApiError message st =
     st\<lparr>apiErrors := apiErrors st + 1, logged := logged st @ [ApiError message]\<rparr>"

text \<open>The loop over the events of one source (lines 247 to 355).\<close>

fun processEvents ::
  "('raw, 'f) env \<Rightarrow> Bucket \<Rightarrow> ('raw, 'f) Event list \<Rightarrow> harvest_state \<Rightarrow> harvest_state" where
  "processEvents e entry [] st = st"
| "processEvents e entry (event # events) st =
     (case renderEvent e entry event of
        Inl why \<Rightarrow> processEvents e entry events (st\<lparr>logged := logged st @ [Skipped why]\<rparr>)
      | Inr influxLine \<Rightarrow>
          processEvents e entry events (st\<lparr>payload := payload st @ influxLine\<rparr>))"

text \<open>The task of one source (lines 219 to 357), run from start to end.\<close>

definition task ::
  "('raw, 'f) env \<Rightarrow> Config \<Rightarrow> Bucket \<Rightarrow> harvest_state \<Rightarrow> harvest_state" where
  "task e config entry st =
     (case Do e (GET (eventsUrl e config (ID entry))) of
        Inl er \<Rightarrow> handleApiError (Sprintln [''Error trying to get events for bucket='' @ ID entry @ '': '', er]) st
      | Inr eventsResp \<Rightarrow>
         (case Body eventsResp of
            Inl er \<Rightarrow> handleApiError (Sprintln [''Error reading events data for bucket='' @ ID entry @ '': '', er]) st
          | Inr eventsBody \<Rightarrow>
              if StatusCode eventsResp \<noteq> 200
              then handleApiError (Sprintln [''Error trying to get events data for bucket='' @ ID entry @ '':'' @ [CHR 0x0A], ''<nil>'']) st
              else
                (case unmarshalEvents e eventsBody of
                   Inl er \<Rightarrow>
                     handleApiError (Sprintln [''Error unmarshalling events data for bucket='' @ ID entry
                        @ '' api response data: '' @ eventsBody, er]) st
                 | Inr events \<Rightarrow> processEvents e entry events st)))"

text \<open>
  All tasks, one after the other in the order of the list: one of the schedules of the
  concurrent program, for a list of the sources in the order the map yields them.
\<close>

definition harvest ::
  "('raw, 'f) env \<Rightarrow> Config \<Rightarrow> Bucket list \<Rightarrow> harvest_state" where
  "harvest e config bucketsList =
     fold (task e config) bucketsList \<lparr>payload = [], apiErrors = 0, logged = []\<rparr>"

section \<open>The batch shipper\<close>

text \<open>How the run ends: \<open>log.Fatal\<close> with the message it prints, or a normal return.\<close>

datatype exit =
    Fatal string
  | Success

definition writeUrl :: "Config \<Rightarrow> string" where
  "writeUrl config =
     ''https://'' @ InfluxDBHost config @ ''/api/v2/write?precision=s&org='' @ Org config
       @ ''&bucket='' @ Bucket config"

definition writeRequest :: "Config \<Rightarrow> string \<Rightarrow> Request" where
  "writeRequest config buf =
     POST (writeUrl config)
       [(''Accept'', ''application/json''),
        (''Authorization'', ''Token '' @ InfluxDBApiToken config),
        (''Content-Encoding'', ''gzip''),
        (''Content-Type'', ''text/plain; charset=utf-8'')]
       buf"

text \<open>Lines 363 to 394, after \<open>wg.Wait()\<close>.\<close>

definition ship :: "('raw, 'f) env \<Rightarrow> Config \<Rightarrow> string \<Rightarrow> 64 word \<Rightarrow> exit" where
  "ship e config pl errs =
     (if length pl = 0 then Fatal (Sprintln [''No data to send''])
      else
        (case gzip e pl of
           (buf, Some er) \<Rightarrow> Fatal (Sprintln [''Error compressing data: '', er])
         | (buf, None) \<Rightarrow>
            (case Do e (writeRequest config buf) of
               Inl er \<Rightarrow> Fatal (Sprintln [''Error sending data: '', er])
             | Inr resp \<Rightarrow>
                (case Body resp of
                   Inl er \<Rightarrow> Fatal (Sprintln [''Error reading data: '', er])
                 | Inr body \<Rightarrow>
                     if StatusCode resp \<noteq> 204 then Fatal (''Error sending data: '' @ body)
                     else if 0 < sint errs
                       then Fatal (''Errors: '' @ fmtInt (sint errs) @ [CHR 0x0A])
                     else Success))))"

text \<open>Lines 193 to 394: the list of sources, the harvest, the shipment.\<close>

definition run :: "('raw, 'f) env \<Rightarrow> Config \<Rightarrow> exit" where
  "run e config =
     (case Do e (GET (ActivityWatchUrl config @ bucketsApiPath)) of
        Inl er \<Rightarrow> Fatal (Sprintln [''Error trying to get bucket list: '', er])
      | Inr bucketsResp \<Rightarrow>
         (case Body bucketsResp of
            Inl er \<Rightarrow> Fatal (Sprintln [''Error reading bucket list data: '', er])
          | Inr bucketsBody \<Rightarrow>
              if StatusCode bucketsResp \<noteq> 200
              then Fatal (''Error trying to get bucket list: '' @ bucketsBody @ [CHR 0x0A])
              else
                (case unmarshalBuckets e bucketsBody of
                   Inl er \<Rightarrow> Fatal (Sprintln [''Error unmarshalling bucket list data: '', er])
                 | Inr bucketsList \<Rightarrow>
                     (let st = harvest e config bucketsList in
                      ship e config (payload st) (apiErrors st)))))"

section \<open>What a run renders, and which sources fail\<close>

text \<open>
  The records of the events of one source, in order: the lines \<open>renderEvent\<close> gives,
  without the skipped events.
\<close>

definition rendered :: "('raw, 'f) env \<Rightarrow> Bucket \<Rightarrow> ('raw, 'f) Event list \<Rightarrow> string list" where
  "rendered e entry events =
     List.map_filter
       (\<lambda>event. case renderEvent e entry event of Inl why \<Rightarrow> None | Inr influxLine \<Rightarrow> Some influxLine)
       events"

text \<open>
  The events of a source when its request succeeds: a response, a readable body, status
  200 and a body that decodes; \<open>None\<close> is a source-level failure.
\<close>

definition fetched ::
  "('raw, 'f) env \<Rightarrow> Config \<Rightarrow> Bucket \<Rightarrow> ('raw, 'f) Event list option" where
  "fetched e config entry =
     (case Do e (GET (eventsUrl e config (ID entry))) of
        Inl er \<Rightarrow> None
      | Inr eventsResp \<Rightarrow>
         (case Body eventsResp of
            Inl er \<Rightarrow> None
          | Inr eventsBody \<Rightarrow>
              if StatusCode eventsResp \<noteq> 200 then None
              else (case unmarshalEvents e eventsBody of Inl er \<Rightarrow> None | Inr events \<Rightarrow> Some events)))"

definition records :: "('raw, 'f) env \<Rightarrow> Config \<Rightarrow> Bucket list \<Rightarrow> string list" where
  "records e config bucketsList =
     concat (map (\<lambda>entry. case fetched e config entry of
                             None \<Rightarrow> [] | Some events \<Rightarrow> rendered e entry events)
                 bucketsList)"

definition failures :: "('raw, 'f) env \<Rightarrow> Config \<Rightarrow> Bucket list \<Rightarrow> nat" where
  "failures e config bucketsList =
     length (filter (\<lambda>entry. fetched e config entry = None) bucketsList)"

section \<open>The tasks as concurrent goroutines\<close>

text \<open>
  The goroutine of a source calls \<open>payload.WriteString\<close> for each record (line 354) on
  the one buffer all goroutines share, and takes no lock: the program synchronises through
  the \<open>WaitGroup\<close> and the atomic counter only. A \<open>bytes.Buffer\<close> is not safe for
  concurrent use: \<open>WriteString\<close> reads the buffer's length and then stores the bytes
  behind it. The model keeps the two accesses as separate steps of a goroutine, so that the
  steps of different goroutines interleave.
\<close>

datatype access =
    Load
  | Store string

definition WriteString :: "string \<Rightarrow> access list" where
  "WriteString influxLine = [Load, Store influxLine]"

text \<open>The accesses of the task of one source: one \<open>WriteString\<close> per record.\<close>

definition accesses :: "('raw, 'f) env \<Rightarrow> Config \<Rightarrow> Bucket \<Rightarrow> access list" where
  "accesses e config entry =
     concat (map WriteString
       (case fetched e config entry of None \<Rightarrow> [] | Some events \<Rightarrow> rendered e entry events))"

text \<open>
  A goroutine: the buffer as it has read it (while it is inside \<open>WriteString\<close>), and the
  accesses it has yet to make.
\<close>

record goroutine =
  seen :: "string option"
  todo :: "access list"

definition spawn :: "('raw, 'f) env \<Rightarrow> Config \<Rightarrow> Bucket \<Rightarrow> goroutine" where
  "spawn e config entry = \<lparr>seen = None, todo = accesses e config entry\<rparr>"

text \<open>One step of a goroutine on the shared buffer.\<close>

fun stepTask :: "string \<Rightarrow> goroutine \<Rightarrow> string \<times> goroutine" where
  "stepTask buffer g =
     (case todo g of
        [] \<Rightarrow> (buffer, g)
      | Load # rest \<Rightarrow> (buffer, \<lparr>seen = Some buffer, todo = rest\<rparr>)
      | Store influxLine # rest \<Rightarrow>
          ((case seen g of None \<Rightarrow> buffer | Some b \<Rightarrow> b) @ influxLine,
           \<lparr>seen = None, todo = rest\<rparr>))"

text \<open>A schedule names the goroutine that takes each next step.\<close>

fun schedule :: "nat list \<Rightarrow> string \<times> goroutine list \<Rightarrow> string \<times> goroutine list" where
  "schedule [] st = st"
| "schedule (i # is) (buffer, gs) =
     (if i < length gs
      then (let (buffer', g') = stepTask buffer (gs ! i) in schedule is (buffer', gs[i := g']))
      else schedule is (buffer, gs))"

definition inside :: "goroutine \<Rightarrow> bool" where
  "inside g = (seen g \<noteq> None)"

section \<open>An example environment\<close>

text \<open>
  A small world to run the model in: an event's raw payload is the text of its one string
  field, a duration is already its \<open>%.3f\<close> text, the body of an events response holds the
  payload of a single event, compression is the identity, and a URL is
  \<open>http://host/path\<close> or has no host. The HTTP exchange \<open>d\<close> is a parameter.
\<close>

definition example_urlParse :: "string \<Rightarrow> error + url_URL" where
  "example_urlParse u =
     (if CHR '' '' \<in> set u then Inl ''invalid character in host name''
      else if take 7 u = ''http://'' then Inr \<lparr>Host = takeWhile (\<lambda>c. c \<noteq> CHR ''/'') (drop 7 u)\<rparr>
      else Inr \<lparr>Host = []\<rparr>)"

definition example_env :: "(Request \<Rightarrow> error + Response) \<Rightarrow> (string, string) env" where
  "example_env d =
     \<lparr>unmarshalWebTab = (\<lambda>raw. Inr \<lparr>URL = raw, Title = [], Audible = False, Incognito = False\<rparr>),
      unmarshalEditor = (\<lambda>raw. Inr \<lparr>File = raw, Project = [], Language = []\<rparr>),
      unmarshalWindow = (\<lambda>raw. Inr \<lparr>App = raw, Title = []\<rparr>),
      unmarshalStopWatch = (\<lambda>raw. Inr \<lparr>Label = raw, Running = False\<rparr>),
      unmarshalAfk = (\<lambda>raw. Inr \<lparr>Status = raw\<rparr>),
      unmarshalEvents =
        (\<lambda>body. if body = [] then Inr []
                else Inr [\<lparr>Timestamp = 1741974028, Duration = ''25.523'', Data = body\<rparr>]),
      unmarshalBuckets = (\<lambda>body. Inl ''unexpected end of JSON input''),
      urlParse = example_urlParse,
      fmt3f = (\<lambda>d. d),
      gzip = (\<lambda>pl. (pl, None)),
      eventsUrl = (\<lambda>config bucket. ActivityWatchUrl config @ bucketsApiPath @ ''/'' @ bucket @ ''/events''),
      Do = d\<rparr>"

definition example_config :: Config where
  "example_config =
     \<lparr>Bucket = ''aw'', InfluxDBHost = ''influx'', InfluxDBApiToken = ''t'', Org = ''o'',
      ActivityWatchUrl = ''http://aw''\<rparr>"

definition example_event :: "string \<Rightarrow> (string, string) Event" where
  "example_event raw = \<lparr>Timestamp = 1741974028, Duration = ''25.523'', Data = raw\<rparr>"

definition example_bucket :: "string \<Rightarrow> string \<Rightarrow> Bucket" where
  "example_bucket i t = \<lparr>ID = i, Type = t, Client = ''aw-watcher-window'', Hostname = ''desktop''\<rparr>"

text \<open>
  An exchange in which the events requests to the URLs of \<open>bad\<close> get status 500, every
  other events request gets status 200 with body \<open>b\<close>, and the write request gets status
  \<open>w\<close> with body \<open>wb\<close>.
\<close>

definition example_Do :: "string list \<Rightarrow> string \<Rightarrow> int \<Rightarrow> string \<Rightarrow> Request \<Rightarrow> error + Response" where
  "example_Do bad b w wb req =
     (case req of
        GET u \<Rightarrow>
          if u \<in> set bad
          then Inr \<lparr>StatusCode = 500, Status = ''500 Internal Server Error'', Body = Inr []\<rparr>
          else Inr \<lparr>StatusCode = 200, Status = ''200 OK'', Body = Inr b\<rparr>
      | POST u hs buf \<Rightarrow> Inr \<lparr>StatusCode = w, Status = [], Body = Inr wb\<rparr>)"

section \<open>Properties of the UTF-8 conversions\<close>

lemma decodeRune_1: "b0 < 0x80 \<Longrightarrow> decodeRune (char_of b0 # t) = (b0, 1)"
  by (simp add: decodeRune_def byte_def)

lemma decodeRune_2:
  "0xC2 \<le> b0 \<Longrightarrow> b0 < 0xE0 \<Longrightarrow> 0x80 \<le> b1 \<Longrightarrow> b1 \<le> 0xBF \<Longrightarrow>
   decodeRune (char_of b0 # char_of b1 # t) = ((b0 - 0xC0) * 64 + (b1 - 0x80), 2)"
  by (simp add: decodeRune_def byte_def inRange_def cont_def)

lemma decodeRune_3:
  "0xE0 \<le> b0 \<Longrightarrow> b0 < 0xF0 \<Longrightarrow> 0x80 \<le> b1 \<Longrightarrow> b1 \<le> 0xBF \<Longrightarrow>
   (b0 = 0xE0 \<Longrightarrow> 0xA0 \<le> b1) \<Longrightarrow> (b0 = 0xED \<Longrightarrow> b1 \<le> 0x9F) \<Longrightarrow>
   0x80 \<le> b2 \<Longrightarrow> b2 \<le> 0xBF \<Longrightarrow>
   decodeRune (char_of b0 # char_of b1 # char_of b2 # t)
     = ((b0 - 0xE0) * 4096 + (b1 - 0x80) * 64 + (b2 - 0x80), 3)"
  by (simp add: decodeRune_def byte_def inRange_def cont_def)

lemma decodeRune_4:
  "0xF0 \<le> b0 \<Longrightarrow> b0 \<le> 0xF4 \<Longrightarrow> 0x80 \<le> b1 \<Longrightarrow> b1 \<le> 0xBF \<Longrightarrow>
   (b0 = 0xF0 \<Longrightarrow> 0x90 \<le> b1) \<Longrightarrow> (b0 = 0xF4 \<Longrightarrow> b1 \<le> 0x8F) \<Longrightarrow>
   0x80 \<le> b2 \<Longrightarrow> b2 \<le> 0xBF \<Longrightarrow> 0x80 \<le> b3 \<Longrightarrow> b3 \<le> 0xBF \<Longrightarrow>
   decodeRune (char_of b0 # char_of b1 # char_of b2 # char_of b3 # t)
     = ((b0 - 0xF0) * 262144 + (b1 - 0x80) * 4096 + (b2 - 0x80) * 64 + (b3 - 0x80), 4)"
  by (simp add: decodeRune_def byte_def inRange_def cont_def)

lemma digits3:
  fixes r :: nat
  obtains a m1 m0 where "r div 4096 = a" "(r div 64) mod 64 = m1" "r mod 64 = m0"
    "m1 < 64" "m0 < 64" "r = a * 4096 + m1 * 64 + m0"
proof -
  have a: "r = (r div 64) * 64 + r mod 64" by simp
  have b: "r div 64 = (r div 64 div 64) * 64 + (r div 64) mod 64" by simp
  have c: "r div 4096 = r div 64 div 64" by (simp add: div_mult2_eq)
  have "r = (r div 4096) * 4096 + ((r div 64) mod 64) * 64 + r mod 64"
    unfolding c using a b by linarith
  then show thesis
    using that [of "r div 4096" "(r div 64) mod 64" "r mod 64"] by simp
qed

lemma digits4:
  fixes r :: nat
  obtains a m2 m1 m0 where "r div 262144 = a" "(r div 4096) mod 64 = m2"
    "(r div 64) mod 64 = m1" "r mod 64 = m0" "m2 < 64" "m1 < 64" "m0 < 64"
    "r = a * 262144 + m2 * 4096 + m1 * 64 + m0"
proof -
  have a: "r = (r div 64) * 64 + r mod 64" by simp
  have b: "r div 64 = (r div 64 div 64) * 64 + (r div 64) mod 64" by simp
  have b': "r div 64 div 64 = (r div 64 div 64 div 64) * 64 + (r div 64 div 64) mod 64" by simp
  have c: "r div 4096 = r div 64 div 64" by (simp add: div_mult2_eq)
  have d: "r div 262144 = r div 64 div 64 div 64" by (simp add: div_mult2_eq)
  have "r = (r div 262144) * 262144 + ((r div 4096) mod 64) * 4096 + ((r div 64) mod 64) * 64 + r mod 64"
    unfolding c d using a b b' by linarith
  then show thesis
    using that [of "r div 262144" "(r div 4096) mod 64" "(r div 64) mod 64" "r mod 64"] by simp
qed

lemma decodeRune_encodeRune:
  assumes "validRune r"
  shows "decodeRune (encodeRune r @ t) = (r, length (encodeRune r))"
proof -
  consider "r \<le> 0x7F" | "0x7F < r" "r \<le> 0x7FF" | "0x7FF < r" "r \<le> 0xFFFF" | "0xFFFF < r"
    by linarith
  then show ?thesis
  proof cases
    case 1
    then show ?thesis by (simp add: encodeRune_def decodeRune_1)
  next
    case 2
    have r: "r = (r div 64) * 64 + r mod 64" by simp
    have m: "r mod 64 < 64" by simp
    have "decodeRune (char_of (0xC0 + r div 64) # char_of (0x80 + r mod 64) # t)
        = ((0xC0 + r div 64 - 0xC0) * 64 + (0x80 + r mod 64 - 0x80), 2)"
      using 2 r m by (intro decodeRune_2) linarith+
    with 2 show ?thesis by (simp add: encodeRune_def)
  next
    case 3
    from assms 3 have ns: "r < 0xD800 \<or> 0xDFFF < r"
      by (auto simp: validRune_def)
    obtain a m1 m0 where d: "r div 4096 = a" "(r div 64) mod 64 = m1" "r mod 64 = m0"
      and m: "m1 < 64" "m0 < 64" and r: "r = a * 4096 + m1 * 64 + m0"
      by (rule digits3)
    have "decodeRune (char_of (0xE0 + a) # char_of (0x80 + m1) # char_of (0x80 + m0) # t)
        = ((0xE0 + a - 0xE0) * 4096 + (0x80 + m1 - 0x80) * 64 + (0x80 + m0 - 0x80), 3)"
      using 3 ns m r by (intro decodeRune_3) linarith+
    then have dec: "decodeRune ([char_of (0xE0 + a), char_of (0x80 + m1), char_of (0x80 + m0)] @ t)
        = (r, 3)"
      using r by simp
    have enc: "encodeRune r = [char_of (0xE0 + a), char_of (0x80 + m1), char_of (0x80 + m0)]"
      using 3 ns by (auto simp: encodeRune_def MaxRune_def d)
    show ?thesis
      unfolding enc using dec by simp
  next
    case 4
    from assms have le: "r \<le> 0x10FFFF"
      by (simp add: validRune_def MaxRune_def)
    obtain a m2 m1 m0 where d: "r div 262144 = a" "(r div 4096) mod 64 = m2"
        "(r div 64) mod 64 = m1" "r mod 64 = m0"
      and m: "m2 < 64" "m1 < 64" "m0 < 64" and r: "r = a * 262144 + m2 * 4096 + m1 * 64 + m0"
      by (rule digits4)
    have "decodeRune (char_of (0xF0 + a) # char_of (0x80 + m2) # char_of (0x80 + m1)
          # char_of (0x80 + m0) # t)
        = ((0xF0 + a - 0xF0) * 262144 + (0x80 + m2 - 0x80) * 4096 + (0x80 + m1 - 0x80) * 64
            + (0x80 + m0 - 0x80), 4)"
      using 4 le m r by (intro decodeRune_4) linarith+
    then have dec: "decodeRune ([char_of (0xF0 + a), char_of (0x80 + m2), char_of (0x80 + m1),
          char_of (0x80 + m0)] @ t) = (r, 4)"
      using r by simp
    have enc: "encodeRune r = [char_of (0xF0 + a), char_of (0x80 + m2), char_of (0x80 + m1),
          char_of (0x80 + m0)]"
      using 4 le by (auto simp: encodeRune_def MaxRune_def d)
    show ?thesis
      unfolding enc using dec by simp
  qed
qed

lemma decodeRune_valid: "validRune (fst (decodeRune s))"
  by (auto simp: decodeRune_def validRune_def MaxRune_def RuneError_def Let_def inRange_def
      cont_def split: list.splits)

lemma runes_Nil: "runes [] = []"
  by (simp add: runes.simps)

lemma runes_valid: "r \<in> set (runes s) \<Longrightarrow> validRune r"
proof (induction s arbitrary: r rule: runes.induct)
  case (1 s)
  show ?case
  proof (cases "s = []")
    case True
    with "1.prems" show ?thesis by (simp add: runes_Nil)
  next
    case False
    then have "runes s = fst (decodeRune s) # runes (drop (snd (decodeRune s)) s)"
      by (subst runes.simps) simp
    with "1.prems" "1.IH" [OF False] show ?thesis
      by (auto simp: decodeRune_valid)
  qed
qed

lemma encodeRune_nonempty: "encodeRune r \<noteq> []"
  by (simp add: encodeRune_def)

lemma runes_encodeRune: "validRune r \<Longrightarrow> runes (encodeRune r @ t) = r # runes t"
  by (subst runes.simps) (simp add: decodeRune_encodeRune encodeRune_nonempty)

lemma runes_string_of_runes:
  "(\<And>r. r \<in> set rs \<Longrightarrow> validRune r) \<Longrightarrow> runes (string_of_runes rs @ t) = rs @ runes t"
  by (induction rs) (simp_all add: string_of_runes_def runes_encodeRune)

lemma runes_dots: "runes ''...'' = [46, 46, 46]"
  by (simp add: runes.simps decodeRune_def byte_def)

section \<open>Properties of the tag escaper\<close>

lemma ReplaceAll_char:
  "ReplaceAll s [c] new = concat (map (\<lambda>x. if x = c then new else [x]) s)"
proof (induction s)
  case Nil
  show ?case by (subst ReplaceAll.simps) simp
next
  case (Cons x xs)
  show ?case by (subst ReplaceAll.simps) (simp add: Cons)
qed

lemma concat_map_concat_map:
  "concat (map f (concat (map g xs))) = concat (map (\<lambda>x. concat (map f (g x))) xs)"
  by (induction xs) simp_all

lemma escaped_concat: "escaped v = concat (map escapeChar v)"
proof -
  have "(\<lambda>x. concat (map (\<lambda>x. if x = CHR '' '' then [backslash, CHR '' ''] else [x])
            (concat (map (\<lambda>x. if x = CHR ''='' then [backslash, CHR ''=''] else [x])
               (if x = CHR '','' then [backslash, CHR '',''] else [x]))))) = escapeChar"
    by (rule ext) (simp add: escapeChar_def isDelim_def backslash_def)
  then show ?thesis
    by (simp add: escaped_def ReplaceAll_char concat_map_concat_map)
qed

lemma escaped_head_not_delim: "concat (map escapeChar xs) = b # cs \<Longrightarrow> \<not> isDelim b"
  by (cases xs) (auto simp: escapeChar_def isDelim_def backslash_def split: if_splits)

lemma escapeChar_delim: "isDelim x \<Longrightarrow> escapeChar x = [backslash, x]"
  by (simp add: escapeChar_def)

lemma escapeChar_other: "\<not> isDelim x \<Longrightarrow> escapeChar x = [x]"
  by (simp add: escapeChar_def)

lemma unescape_escaped: "unescape (concat (map escapeChar v)) = v"
proof (induction v)
  case Nil
  show ?case by simp
next
  case (Cons x xs)
  show ?case
  proof (cases "isDelim x")
    case True
    then show ?thesis by (simp add: escapeChar_delim Cons)
  next
    case False
    show ?thesis
    proof (cases "concat (map escapeChar xs)")
      case Nil
      from Cons.IH False show ?thesis by (simp add: escapeChar_other Nil)
    next
      case (Cons b cs)
      then have "\<not> isDelim b" by (rule escaped_head_not_delim)
      with Cons Cons.IH False show ?thesis by (simp add: escapeChar_other)
    qed
  qed
qed

lemma splitFrom_escaped:
  "splitFrom piece (concat (map escapeChar v)) = [piece @ concat (map escapeChar v)]"
proof (induction v arbitrary: piece)
  case Nil
  show ?case by simp
next
  case (Cons x xs)
  show ?case
  proof (cases "isDelim x")
    case True
    then show ?thesis by (simp add: escapeChar_delim Cons)
  next
    case False
    show ?thesis
    proof (cases "concat (map escapeChar xs)")
      case Nil
      from False show ?thesis by (simp add: escapeChar_other Nil)
    next
      case (Cons b cs)
      then have "\<not> isDelim b" by (rule escaped_head_not_delim)
      with Cons Cons.IH [of "piece @ [x]"] False show ?thesis by (simp add: escapeChar_other)
    qed
  qed
qed

text \<open>
  Claim C3, as amended. The escaper replaces commas, then equals signs, then spaces, in
  this order. When the escaped form has at most 1024 code points, the output has no
  unescaped delimiter (splitting gives the output as one piece) and undoing the escapes
  gives the original value.
\<close>

theorem escape_recovers_value:
  "escaped v = ReplaceAll (ReplaceAll (ReplaceAll v '','' [backslash, CHR '','']) ''='' [backslash, CHR ''=''])
                 '' '' [backslash, CHR '' '']
   \<and> (length (runes (escaped v)) \<le> 1024 \<longrightarrow>
        map unescape (splitUnescaped (escapeTagValue v)) = [v])"
proof -
  have "map unescape (splitUnescaped (escaped v)) = [v]"
    by (simp add: splitUnescaped_def escaped_concat splitFrom_escaped unescape_escaped)
  then show ?thesis
    by (simp add: escapeTagValue_def stringLimit_def escaped_def)
qed

text \<open>
  The value "a b,c=d" is escaped at its space, its comma and its equals sign, and read
  back.
\<close>

theorem escape_recovers_value_witness:
  "length (runes (escaped ''a b,c=d'')) \<le> 1024
   \<and> escapeTagValue ''a b,c=d'' = ''a'' @ [backslash] @ '' b'' @ [backslash] @ '',c'' @ [backslash] @ ''=d''
   \<and> map unescape (splitUnescaped (escapeTagValue ''a b,c=d'')) = [''a b,c=d'']"
proof -
  have e: "escaped ''a b,c=d'' = ''a'' @ [backslash] @ '' b'' @ [backslash] @ '',c'' @ [backslash] @ ''=d''"
    by (simp add: escaped_concat escapeChar_def isDelim_def)
  have l: "length (runes (escaped ''a b,c=d'')) \<le> 1024"
    unfolding e by (simp add: runes.simps decodeRune_def byte_def backslash_def)
  from l have t: "escapeTagValue ''a b,c=d'' = escaped ''a b,c=d''"
    by (simp add: escapeTagValue_def stringLimit_def)
  have "map unescape (splitUnescaped (escapeTagValue ''a b,c=d'')) = [''a b,c=d'']"
    using escape_recovers_value [of "''a b,c=d''"] l by blast
  with l show ?thesis
    by (simp only: t e simp_thms)
qed

lemma decodeRune_ascii: "byte c < 0x80 \<Longrightarrow> decodeRune (c # t) = (byte c, 1)"
  by (simp add: decodeRune_def)

lemma runes_ascii: "(\<And>c. c \<in> set s \<Longrightarrow> byte c < 0x80) \<Longrightarrow> runes s = map byte s"
proof (induction s)
  case Nil
  show ?case by (simp add: runes_Nil)
next
  case (Cons c s)
  then show ?case by (subst runes.simps) (simp add: decodeRune_ascii)
qed

lemma encodeRune_ascii:
  assumes "byte c < 0x80"
  shows "encodeRune (byte c) = [c]"
proof -
  from assms have "byte c \<le> 0x7F" by simp
  then show ?thesis by (simp add: encodeRune_def) (simp add: byte_def)
qed

lemma string_of_runes_ascii:
  "(\<And>c. c \<in> set s \<Longrightarrow> byte c < 0x80) \<Longrightarrow> string_of_runes (map byte s) = s"
  by (induction s) (simp_all add: string_of_runes_def encodeRune_ascii)

lemma escapeTagValue_ascii_long:
  assumes "\<And>c. c \<in> set (escaped v) \<Longrightarrow> byte c < 0x80"
    and "1024 < length (escaped v)"
  shows "escapeTagValue v = take 1021 (escaped v) @ ''...''"
proof -
  have r: "runes (escaped v) = map byte (escaped v)"
    using assms(1) by (rule runes_ascii)
  have "string_of_runes (map byte (take 1021 (escaped v))) = take 1021 (escaped v)"
    using assms(1) by (intro string_of_runes_ascii) (auto dest: in_set_takeD)
  with assms(2) show ?thesis
    by (simp add: escapeTagValue_def stringLimit_def r take_map)
qed

lemma length_unescape: "length (unescape s) \<le> length s"
  by (induction s rule: unescape.induct) auto

lemma length_splitFrom:
  "sum_list (map length (splitFrom piece s)) \<le> length piece + length s"
  by (induction piece s rule: splitFrom.induct) auto

lemma length_unescape_pieces:
  "sum_list (map length (map unescape (splitUnescaped s))) \<le> length s"
proof -
  have "sum_list (map length (map unescape ps)) \<le> sum_list (map length ps)" for ps
    by (induction ps) (simp_all add: add_mono length_unescape)
  from this [of "splitUnescaped s"] length_splitFrom [of "[]" s] show ?thesis
    by (simp add: splitUnescaped_def)
qed

text \<open>
  Claim C3 as stated fails for a long value: a comma followed by 1024 letters is cut to
  1024 bytes, and no reading of the output gives the 1025 bytes back.
\<close>

theorem long_value_not_recovered:
  "map unescape (splitUnescaped (escapeTagValue (CHR '','' # replicate 1024 (CHR ''a''))))
     \<noteq> [CHR '','' # replicate 1024 (CHR ''a'')]"
proof
  let ?v = "CHR '','' # replicate 1024 (CHR ''a'')"
  assume eq: "map unescape (splitUnescaped (escapeTagValue ?v)) = [?v]"
  have "concat (map escapeChar (replicate n (CHR ''a''))) = replicate n (CHR ''a'')" for n
    by (induction n) (simp_all add: escapeChar_def isDelim_def)
  then have e: "escaped ?v = backslash # CHR '','' # replicate 1024 (CHR ''a'')"
    by (simp add: escaped_concat escapeChar_def isDelim_def)
  have "escapeTagValue ?v = take 1021 (escaped ?v) @ ''...''"
    by (rule escapeTagValue_ascii_long) (auto simp: e byte_def backslash_def)
  then have "length (escapeTagValue ?v) = 1024"
    by (simp add: e)
  with length_unescape_pieces [of "escapeTagValue ?v"] eq show False
    by simp
qed

text \<open>
  Claim C2. When the escaped form has at most 1024 code points, \<open>escapeTagValue\<close>
  returns it unchanged. When it has more, the result is the encoding of its first 1021
  code points followed by "...": decoded again, the result is these 1021 code points and
  three dots, 1024 code points in all.
\<close>

theorem escapeTagValue_length_policy:
  "(length (runes (escaped v)) \<le> 1024 \<longrightarrow> escapeTagValue v = escaped v)
   \<and> (1024 < length (runes (escaped v)) \<longrightarrow>
        escapeTagValue v = string_of_runes (take 1021 (runes (escaped v))) @ ''...''
        \<and> runes (escapeTagValue v) = take 1021 (runes (escaped v)) @ runes ''...''
        \<and> length (runes (escapeTagValue v)) = 1024)"
proof -
  have v: "r \<in> set (take 1021 (runes (escaped v))) \<Longrightarrow> validRune r" for r
    by (auto dest: in_set_takeD runes_valid)
  have "runes (string_of_runes (take 1021 (runes (escaped v))) @ ''...'')
      = take 1021 (runes (escaped v)) @ runes ''...''"
    using v by (rule runes_string_of_runes)
  then show ?thesis
    by (simp add: escapeTagValue_def stringLimit_def runes_dots)
qed

lemma escaped_no_delim: "(\<And>c. c \<in> set v \<Longrightarrow> \<not> isDelim c) \<Longrightarrow> escaped v = v"
  unfolding escaped_concat by (induction v) (simp_all add: escapeChar_other)

lemma runes_e_acute: "runes (concat (replicate n e_acute) @ t) = replicate n 0xE9 @ runes t"
proof (induction n)
  case 0
  show ?case by simp
next
  case (Suc n)
  have d: "decodeRune (e_acute @ x) = (0xE9, 2)" "drop 2 (e_acute @ x) = x" "e_acute @ x \<noteq> []"
    for x
    by (simp_all add: e_acute_def decodeRune_def byte_def inRange_def cont_def)
  let ?x = "concat (replicate n e_acute) @ t"
  have "runes (e_acute @ ?x)
      = fst (decodeRune (e_acute @ ?x)) # runes (drop (snd (decodeRune (e_acute @ ?x))) (e_acute @ ?x))"
    by (subst runes.simps) (simp only: d(3) if_False)
  also have "\<dots> = 0xE9 # runes ?x"
    by (simp only: d fst_conv snd_conv)
  finally show ?case
    using Suc by simp
qed

lemma string_of_runes_e_acute: "string_of_runes (replicate n 0xE9) = concat (replicate n e_acute)"
proof -
  have "encodeRune 0xE9 = e_acute"
    by (simp add: encodeRune_def e_acute_def char_of_eq_iff)
  then show ?thesis
    by (simp add: string_of_runes_def)
qed

text \<open>
  Code points are counted, not bytes: 600 times \<open>U+00E9\<close> is 1200 bytes and is returned
  unchanged; 1030 times \<open>U+00E9\<close> is cut to 1021 of them and three dots.
\<close>

theorem escapeTagValue_length_policy_witness:
  "length (concat (replicate 600 e_acute)) = 1200
   \<and> length (runes (escaped (concat (replicate 600 e_acute)))) = 600
   \<and> escapeTagValue (concat (replicate 600 e_acute)) = concat (replicate 600 e_acute)
   \<and> length (runes (escaped (concat (replicate 1030 e_acute)))) = 1030
   \<and> escapeTagValue (concat (replicate 1030 e_acute)) = concat (replicate 1021 e_acute) @ ''...''
   \<and> length (runes (escapeTagValue (concat (replicate 1030 e_acute)))) = 1024"
proof -
  have "c \<in> set (concat (replicate n e_acute)) \<Longrightarrow> c = CHR 0xC3 \<or> c = CHR 0xA9" for c n
    by (induction n) (auto simp: e_acute_def)
  then have nd: "c \<in> set (concat (replicate n e_acute)) \<Longrightarrow> \<not> isDelim c" for c n
    unfolding isDelim_def by fastforce
  have e: "escaped (concat (replicate n e_acute)) = concat (replicate n e_acute)" for n
    using nd by (rule escaped_no_delim)
  have r: "runes (concat (replicate n e_acute)) = replicate n 0xE9" for n
    using runes_e_acute [of n "[]"] by (simp add: runes_Nil)
  have len: "length (concat (replicate n e_acute)) = 2 * n" for n
    by (induction n) (simp_all add: e_acute_def)
  have "length (runes (escaped (concat (replicate 600 e_acute)))) \<le> 1024"
    by (simp add: e r)
  with escapeTagValue_length_policy [of "concat (replicate 600 e_acute)"]
  have a: "escapeTagValue (concat (replicate 600 e_acute)) = escaped (concat (replicate 600 e_acute))"
    by blast
  have l: "1024 < length (runes (escaped (concat (replicate 1030 e_acute))))"
    by (simp add: e r)
  have b: "escapeTagValue (concat (replicate 1030 e_acute))
        = string_of_runes (take 1021 (runes (escaped (concat (replicate 1030 e_acute))))) @ ''...''
      \<and> length (runes (escapeTagValue (concat (replicate 1030 e_acute)))) = 1024"
    using escapeTagValue_length_policy [of "concat (replicate 1030 e_acute)"] l
    by blast
  have c1: "length (concat (replicate 600 e_acute)) = 1200"
    by (simp add: len)
  have c2: "length (runes (escaped (concat (replicate 600 e_acute)))) = 600"
    by (simp add: e r)
  have c3: "escapeTagValue (concat (replicate 600 e_acute)) = concat (replicate 600 e_acute)"
    using a by (simp add: e)
  have c4: "length (runes (escaped (concat (replicate 1030 e_acute)))) = 1030"
    by (simp add: e r)
  have c5: "escapeTagValue (concat (replicate 1030 e_acute)) = concat (replicate 1021 e_acute) @ ''...''"
    using b by (simp add: e r string_of_runes_e_acute)
  have c6: "length (runes (escapeTagValue (concat (replicate 1030 e_acute)))) = 1024"
    using b by blast
  show ?thesis
    by (intro conjI c1 c2 c3 c4 c5 c6)
qed

section \<open>Properties of the harvest and of the shipment\<close>

lemma renderEvent_nonempty: "renderEvent e entry event = Inr l \<Longrightarrow> l \<noteq> []"
  by (auto simp: renderEvent_def Let_def split: if_splits sum.splits)

lemma processEvents_payload:
  "payload (processEvents e entry events st) = payload st @ concat (rendered e entry events)"
  by (induction events arbitrary: st)
     (auto simp: rendered_def split: sum.splits)

lemma processEvents_apiErrors:
  "apiErrors (processEvents e entry events st) = apiErrors st"
  by (induction events arbitrary: st) (auto split: sum.splits)

lemma task_payload:
  "payload (task e config entry st) =
     payload st @ concat (case fetched e config entry of None \<Rightarrow> [] | Some events \<Rightarrow> rendered e entry events)"
  by (auto simp: task_def fetched_def handleApiError_def processEvents_payload split: sum.splits)

lemma task_apiErrors:
  "apiErrors (task e config entry st) =
     apiErrors st + (if fetched e config entry = None then 1 else 0)"
  by (auto simp: task_def fetched_def handleApiError_def processEvents_apiErrors split: sum.splits)

lemma fold_task_payload:
  "payload (fold (task e config) bs st) = payload st @ concat (records e config bs)"
  by (induction bs arbitrary: st) (auto simp: records_def task_payload)

lemma fold_task_apiErrors:
  "apiErrors (fold (task e config) bs st) = apiErrors st + of_nat (failures e config bs)"
  by (induction bs arbitrary: st) (auto simp: failures_def task_apiErrors)

lemma harvest_payload: "payload (harvest e config bs) = concat (records e config bs)"
  by (simp add: harvest_def fold_task_payload)

lemma harvest_apiErrors: "apiErrors (harvest e config bs) = of_nat (failures e config bs)"
  by (simp add: harvest_def fold_task_apiErrors)

lemma rendered_nonempty: "l \<in> set (rendered e entry events) \<Longrightarrow> l \<noteq> []"
  by (auto simp: rendered_def List.map_filter_def dest: renderEvent_nonempty split: sum.splits)

lemma records_nonempty: "l \<in> set (records e config bs) \<Longrightarrow> l \<noteq> []"
  by (auto simp: records_def dest: rendered_nonempty split: option.splits)

lemma payload_empty_iff: "payload (harvest e config bs) = [] \<longleftrightarrow> records e config bs = []"
  using records_nonempty[of _ e config bs]
  by (cases "records e config bs") (auto simp: harvest_payload)

text \<open>
  Claim C5. With an empty payload the shipper ends the run with the fatal message
  "No data to send", whatever the failure counter holds: the check comes first and never
  reads the counter. The payload of a harvest is empty exactly when no record was
  rendered, so a run that rendered zero records ends this way.
\<close>

theorem empty_payload_is_fatal:
  "(\<forall>errs. ship e config [] errs = Fatal (''No data to send'' @ [CHR 0x0A]))
   \<and> (records e config bucketsList = [] \<longrightarrow>
        ship e config (payload (harvest e config bucketsList))
                      (apiErrors (harvest e config bucketsList))
          = Fatal (''No data to send'' @ [CHR 0x0A]))"
  by (simp add: ship_def payload_empty_iff)

lemmas example_defs =
  example_env_def example_Do_def example_config_def example_bucket_def example_event_def
  example_urlParse_def

text \<open>
  A run whose only source answers 500: no record, a counter of one, and the run ends with
  "No data to send".
\<close>

theorem empty_payload_is_fatal_witness:
  "records (example_env (example_Do [''http://aw/api/0/buckets/b1/events''] [] 204 [])) example_config
        [example_bucket ''b1'' currentWindowType] = []
   \<and> apiErrors (harvest (example_env (example_Do [''http://aw/api/0/buckets/b1/events''] [] 204 [])) example_config
        [example_bucket ''b1'' currentWindowType]) = 1
   \<and> ship (example_env (example_Do [''http://aw/api/0/buckets/b1/events''] [] 204 [])) example_config
        (payload (harvest (example_env (example_Do [''http://aw/api/0/buckets/b1/events''] [] 204 [])) example_config
           [example_bucket ''b1'' currentWindowType]))
        (apiErrors (harvest (example_env (example_Do [''http://aw/api/0/buckets/b1/events''] [] 204 [])) example_config
           [example_bucket ''b1'' currentWindowType]))
       = Fatal (''No data to send'' @ [CHR 0x0A])"
  using empty_payload_is_fatal [of "example_env (example_Do [''http://aw/api/0/buckets/b1/events''] [] 204 [])"
      example_config "[example_bucket ''b1'' currentWindowType]"]
  by (simp add: records_def fetched_def harvest_apiErrors failures_def example_defs bucketsApiPath_def)

text \<open>
  Claim C6. When the write request is answered with a status other than 204, the run ends
  fatally: with the message "Error sending data: " followed by the body of the answer or,
  when the body cannot be read, with the error of reading it. A run that ends normally has
  had the answer 204.
\<close>

theorem only_204_is_success:
  "(pl \<noteq> [] \<and> gzip e pl = (buf, None) \<and> Do e (writeRequest config buf) = Inr r
      \<and> StatusCode r \<noteq> 204
     \<longrightarrow> ship e config pl errs =
          (case Body r of
             Inl er \<Rightarrow> Fatal (Sprintln [''Error reading data: '', er])
           | Inr body \<Rightarrow> Fatal (''Error sending data: '' @ body)))
   \<and> (ship e config pl errs = Success
     \<longrightarrow> (\<exists>r. Do e (writeRequest config (fst (gzip e pl))) = Inr r \<and> StatusCode r = 204))"
  by (auto simp: ship_def split: prod.splits option.splits sum.splits if_splits)

text \<open>
  An answer 200 with body "bad request" is fatal and reports the body; an answer 204 with
  no failure counted ends the run normally.
\<close>

theorem only_204_is_success_witness:
  "ship (example_env (example_Do [] ''x'' 200 ''bad request'')) example_config ''line'' 0
     = Fatal ''Error sending data: bad request''
   \<and> ship (example_env (example_Do [] ''x'' 204 [])) example_config ''line'' 0 = Success"
proof -
  let ?e = "\<lambda>w wb. example_env (example_Do [] ''x'' w wb)"
  have a: "ship (?e 200 ''bad request'') example_config ''line'' 0
     = Fatal (''Error sending data: '' @ ''bad request'')"
    using only_204_is_success [of "''line''" "?e 200 ''bad request''" "''line''" example_config
        "\<lparr>StatusCode = 200, Status = [], Body = Inr ''bad request''\<rparr>" 0]
    by (simp add: example_defs writeRequest_def)
  have b: "ship (?e 204 []) example_config ''line'' 0 = Success"
    by (simp add: ship_def example_defs writeRequest_def)
  from a b show ?thesis by simp
qed

lemma sint_of_nat_64: "k < 2 ^ 63 \<Longrightarrow> sint (word_of_nat k :: 64 word) = int k"
  by (simp add: signed_of_nat signed_take_bit_int_eq_self)

lemma fmtInt_int: "fmtInt (int k) = fmtNat k"
  by (simp add: fmtInt_def)

text \<open>
  Claim C7. After an upload answered with 204, the run ends normally when no source
  failed, and otherwise with the fatal message "Errors: n" for the number n of sources
  that failed. The counter is a 64-bit signed integer; fewer than \<open>2^63\<close> sources
  keep it from wrapping.
\<close>

theorem failures_fail_the_run:
  assumes "length bucketsList < 2 ^ 63"
    and "payload (harvest e config bucketsList) \<noteq> []"
    and "gzip e (payload (harvest e config bucketsList)) = (buf, None)"
    and "Do e (writeRequest config buf) = Inr r"
    and "Body r = Inr body"
    and "StatusCode r = 204"
  shows "ship e config (payload (harvest e config bucketsList)) (apiErrors (harvest e config bucketsList))
          = (if failures e config bucketsList = 0 then Success
             else Fatal (''Errors: '' @ fmtNat (failures e config bucketsList) @ [CHR 0x0A]))"
proof -
  have "failures e config bucketsList \<le> length bucketsList"
    by (simp add: failures_def)
  with assms(1) have "failures e config bucketsList < 2 ^ 63" by simp
  then have "sint (apiErrors (harvest e config bucketsList)) = int (failures e config bucketsList)"
    by (simp add: harvest_apiErrors sint_of_nat_64)
  with assms(2-) show ?thesis
    by (simp add: ship_def fmtInt_int)
qed

lemma fmtInt_example: "fmtInt 1741974028 = ''1741974028''"
  by (simp add: fmtInt_def fmtNat.simps digit_def)

lemma fmtNat_1: "fmtNat (Suc 0) = ''1''"
  by (simp add: fmtNat.simps digit_def)

lemma escapeTagValue_firefox: "escapeTagValue ''firefox'' = ''firefox''"
  by code_simp

lemma escapeTagValue_desktop: "escapeTagValue ''desktop'' = ''desktop''"
  by code_simp

lemma render_example_window:
  "renderEvent (example_env d) (example_bucket i currentWindowType) (example_event ''firefox'')
     = Inr (''currentwindow,client=aw-watcher-window,hostname=desktop,app=firefox duration=25.523 1741974028'' @ [CHR 0x0A])"
  by (simp add: renderEvent_def example_defs currentWindowType_def webTabCurrentType_def
      appEditorType_def fmtInt_example escapeTagValue_firefox escapeTagValue_desktop)

text \<open>
  Two sources, the first answering 500 and the second giving one record; the upload is
  answered with 204, and the run ends with "Errors: 1".
\<close>

theorem failures_fail_the_run_witness:
  "ship (example_env (example_Do [''http://aw/api/0/buckets/b1/events''] ''firefox'' 204 [])) example_config
     (payload (harvest (example_env (example_Do [''http://aw/api/0/buckets/b1/events''] ''firefox'' 204 []))
        example_config [example_bucket ''b1'' currentWindowType, example_bucket ''b2'' currentWindowType]))
     (apiErrors (harvest (example_env (example_Do [''http://aw/api/0/buckets/b1/events''] ''firefox'' 204 []))
        example_config [example_bucket ''b1'' currentWindowType, example_bucket ''b2'' currentWindowType]))
    = Fatal (''Errors: 1'' @ [CHR 0x0A])"
proof -
  let ?e = "example_env (example_Do [''http://aw/api/0/buckets/b1/events''] ''firefox'' 204 [])"
  let ?bs = "[example_bucket ''b1'' currentWindowType, example_bucket ''b2'' currentWindowType]"
  have f1: "fetched ?e example_config (example_bucket ''b1'' currentWindowType) = None"
    by (simp add: fetched_def example_defs bucketsApiPath_def)
  have f2: "fetched ?e example_config (example_bucket ''b2'' currentWindowType) = Some [example_event ''firefox'']"
    by (simp add: fetched_def example_defs bucketsApiPath_def)
  have p: "payload (harvest ?e example_config ?bs)
     = ''currentwindow,client=aw-watcher-window,hostname=desktop,app=firefox duration=25.523 1741974028'' @ [CHR 0x0A]"
    by (simp add: harvest_payload records_def f1 f2 rendered_def render_example_window)
  have n: "failures ?e example_config ?bs = 1"
    by (simp add: failures_def f1 f2)
  have g: "gzip ?e (payload (harvest ?e example_config ?bs)) = (payload (harvest ?e example_config ?bs), None)"
    by (simp add: example_env_def)
  have d: "Do ?e (writeRequest example_config (payload (harvest ?e example_config ?bs)))
     = Inr \<lparr>StatusCode = 204, Status = [], Body = Inr []\<rparr>"
    by (simp add: example_env_def example_Do_def writeRequest_def)
  show ?thesis
    using failures_fail_the_run [of ?bs ?e example_config, OF _ _ g d] p n
    by (simp add: fmtNat_1)
qed

section \<open>Properties of the transcoder\<close>

text \<open>
  Claim C8. For an event of a \<open>web.tab.current\<close> source whose payload decodes: when the
  URL parses, the record carries the tag \<open>url\<close> with the host of the parsed URL exactly
  when that host is not empty, and the fields duration, audible and incognito in either
  case; when the URL does not parse, the event gives no record, one line is logged, and
  the loop goes on with the next events.
\<close>

theorem webtab_url_tag:
  assumes "Type entry = webTabCurrentType"
    and "unmarshalWebTab e (Data event) = Inr data"
  shows "(urlParse e (URL data) = Inr u \<longrightarrow>
            renderEvent e entry event =
              Inr (Type entry @ '',client='' @ Client entry
                   @ '',hostname='' @ escapeTagValue (Hostname entry)
                   @ (if Host u = [] then [] else '',url='' @ Host u)
                   @ '' duration='' @ fmt3f e (Duration event)
                   @ '',audible='' @ fmtBool (Audible data)
                   @ '',incognito='' @ fmtBool (Incognito data)
                   @ '' '' @ fmtInt (Timestamp event) @ [CHR 0x0A]))
       \<and> (urlParse e (URL data) = Inl er \<longrightarrow>
            renderEvent e entry event = Inl (ErrorParsingURL (URL data) er)
            \<and> processEvents e entry (event # events) st =
                processEvents e entry events
                  (st\<lparr>logged := logged st @ [Skipped (ErrorParsingURL (URL data) er)]\<rparr>))"
  using assms by (simp add: renderEvent_def)

text \<open>
  A URL with host, path and query gives \<open>url=github.com\<close>; a URL without host gives no
  \<open>url\<close> tag; a URL that does not parse gives no record.
\<close>

theorem webtab_url_tag_witness:
  "renderEvent (example_env (example_Do [] [] 204 [])) (example_bucket ''b1'' webTabCurrentType)
      (example_event ''http://github.com/rare-magma?tab=repositories'')
     = Inr (''web.tab.current,client=aw-watcher-window,hostname=desktop,url=github.com duration=25.523,audible=false,incognito=false 1741974028'' @ [CHR 0x0A])
   \<and> renderEvent (example_env (example_Do [] [] 204 [])) (example_bucket ''b1'' webTabCurrentType)
      (example_event ''/home/user/index.html'')
     = Inr (''web.tab.current,client=aw-watcher-window,hostname=desktop duration=25.523,audible=false,incognito=false 1741974028'' @ [CHR 0x0A])
   \<and> renderEvent (example_env (example_Do [] [] 204 [])) (example_bucket ''b1'' webTabCurrentType)
      (example_event ''http://a b/'')
     = Inl (ErrorParsingURL ''http://a b/'' ''invalid character in host name'')"
proof -
  let ?e = "example_env (example_Do [] [] 204 [])"
  let ?b = "example_bucket ''b1'' webTabCurrentType"
  let ?st = "\<lparr>payload = [], apiErrors = 0, logged = []\<rparr>"
  have t: "Type ?b = webTabCurrentType"
    by (simp add: example_bucket_def)
  have u: "\<And>raw. unmarshalWebTab ?e (Data (example_event raw))
      = Inr \<lparr>URL = raw, Title = [], Audible = False, Incognito = False\<rparr>"
    by (simp add: example_env_def example_event_def)
  have p1: "urlParse ?e ''http://github.com/rare-magma?tab=repositories'' = Inr \<lparr>Host = ''github.com''\<rparr>"
    by (simp add: example_env_def example_urlParse_def)
  have p2: "urlParse ?e ''/home/user/index.html'' = Inr \<lparr>Host = []\<rparr>"
    by (simp add: example_env_def example_urlParse_def)
  have p3: "urlParse ?e ''http://a b/'' = Inl ''invalid character in host name''"
    by (simp add: example_env_def example_urlParse_def)
  have fx: "fmt3f ?e (Duration (example_event raw)) = ''25.523''" "Timestamp (example_event raw) = 1741974028" for raw
    by (simp_all add: example_env_def example_event_def)
  have bx: "Client ?b = ''aw-watcher-window''" "Hostname ?b = ''desktop''"
    by (simp_all add: example_bucket_def)
  show ?thesis
    using webtab_url_tag [OF t u, of "''http://github.com/rare-magma?tab=repositories''" "\<lparr>Host = ''github.com''\<rparr>" "[]" "[]" ?st]
      webtab_url_tag [OF t u, of "''/home/user/index.html''" "\<lparr>Host = []\<rparr>" "[]" "[]" ?st]
      webtab_url_tag [OF t u, of "''http://a b/''" "\<lparr>Host = []\<rparr>" "''invalid character in host name''" "[]" ?st]
    by (simp add: p1 p2 p3 fx example_bucket_def webTabCurrentType_def fmtBool_def fmtInt_example
        escapeTagValue_desktop)
qed

lemma escapeTagValue_my_host: "escapeTagValue ''my host'' = ''my'' @ [backslash] @ '' host''"
  by code_simp

lemma escapeTagValue_fire_fox: "escapeTagValue ''fire fox'' = ''fire'' @ [backslash] @ '' fox''"
  by code_simp

lemma escapeTagValue_my_client: "escapeTagValue ''my client'' = ''my'' @ [backslash] @ '' client''"
  by code_simp

lemma escapeTagValue_host: "escapeTagValue ''a,b=c'' = ''a'' @ [backslash] @ '',b'' @ [backslash] @ ''=c''"
  by code_simp

text \<open>
  Claim C10. For an event of an \<open>afkstatus\<close> source whose payload decodes, the record
  holds the status exactly as decoded between the two double quotes of the field
  \<open>status\<close>: it is not escaped and does not pass through \<open>escapeTagValue\<close>.
\<close>

theorem afk_status_verbatim:
  assumes "Type entry = afkType"
    and "unmarshalAfk e (Data event) = Inr data"
  shows "renderEvent e entry event =
           Inr (Type entry @ '',client='' @ Client entry
                @ '',hostname='' @ escapeTagValue (Hostname entry)
                @ '' duration='' @ fmt3f e (Duration event)
                @ '',status='' @ [CHR 0x22] @ AfkStatus.Status data @ [CHR 0x22]
                @ '' '' @ fmtInt (Timestamp event) @ [CHR 0x0A])"
  using assms
  by (simp add: renderEvent_def afkType_def webTabCurrentType_def appEditorType_def
      currentWindowType_def stopwatchType_def)

text \<open>
  A status with spaces, a comma, an equals sign, a double quote and a backslash appears
  in the record unchanged.
\<close>

theorem afk_status_verbatim_witness:
  "renderEvent (example_env (example_Do [] [] 204 [])) (example_bucket ''b1'' afkType)
      (example_event (''not afk, a=b '' @ [CHR 0x22, backslash]))
     = Inr (''afkstatus,client=aw-watcher-window,hostname=desktop duration=25.523,status=''
            @ [CHR 0x22] @ ''not afk, a=b '' @ [CHR 0x22, backslash] @ [CHR 0x22]
            @ '' 1741974028'' @ [CHR 0x0A])"
  using afk_status_verbatim [of "example_bucket ''b1'' afkType" "example_env (example_Do [] [] 204 [])"
      "example_event (''not afk, a=b '' @ [CHR 0x22, backslash])"
      "\<lparr>Status = ''not afk, a=b '' @ [CHR 0x22, backslash]\<rparr>"]
  by (simp add: example_defs afkType_def fmtInt_example escapeTagValue_desktop)

text \<open>
  Claim C1 at two inputs. A source whose client name is "my client" and whose hostname is
  "my host": the hostname and the app are escaped in the record, the client name is
  embedded as it is, although the escaper would change it. A web tab event whose URL has
  the host "a,b=c": the host is embedded as it is, although the escaper would change
  it.
\<close>

theorem client_and_url_not_escaped:
  "renderEvent (example_env (example_Do [] [] 204 []))
      \<lparr>ID = ''b1'', Type = currentWindowType, Client = ''my client'', Hostname = ''my host''\<rparr>
      (example_event ''fire fox'')
     = Inr (''currentwindow,client=my client,hostname=my'' @ [backslash] @ '' host,app=fire''
            @ [backslash] @ '' fox duration=25.523 1741974028'' @ [CHR 0x0A])
   \<and> escapeTagValue ''my client'' = ''my'' @ [backslash] @ '' client''
   \<and> renderEvent (example_env (example_Do [] [] 204 [])) (example_bucket ''b1'' webTabCurrentType)
      (example_event ''http://a,b=c/x'')
     = Inr (''web.tab.current,client=aw-watcher-window,hostname=desktop,url=a,b=c duration=25.523,audible=false,incognito=false 1741974028'' @ [CHR 0x0A])
   \<and> escapeTagValue ''a,b=c'' = ''a'' @ [backslash] @ '',b'' @ [backslash] @ ''=c''"
  by (simp add: renderEvent_def example_defs currentWindowType_def webTabCurrentType_def
      appEditorType_def fmtBool_def fmtInt_example escapeTagValue_desktop escapeTagValue_my_host
      escapeTagValue_fire_fox escapeTagValue_my_client escapeTagValue_host)

section \<open>Properties of the resilient transport\<close>

lemma state_after_Suc: "state_after tr s (Suc n) = snd (tr (state_after tr s n))"
  by (simp add: state_after_def)

lemma shouldRetry_iff:
  "shouldRetry err resp \<longleftrightarrow>
     err \<noteq> None \<or> resp = None \<or> (\<exists>r. resp = Some r \<and> StatusCode r \<in> {500, 502, 503, 504})"
  by (auto simp: shouldRetry_def split: option.splits)

lemma retryLoop_spec:
  assumes "retries st \<le> retryCount"
    and "after st = state_after tr s (Suc (retries st))"
    and "(lastResp st, lastErr st) = outcome tr s (retries st)"
  shows "retries st \<le> retries (retryLoop tr st)
       \<and> retries (retryLoop tr st) \<le> retryCount
       \<and> (lastResp (retryLoop tr st), lastErr (retryLoop tr st)) = outcome tr s (retries (retryLoop tr st))
       \<and> (\<forall>i. retries st \<le> i \<and> i < retries (retryLoop tr st) \<longrightarrow> retryable (outcome tr s i))
       \<and> (retries (retryLoop tr st) < retryCount \<longrightarrow> \<not> retryable (outcome tr s (retries (retryLoop tr st))))"
  using assms
proof (induction tr st rule: retryLoop.induct)
  case (1 tr st)
  show ?case
  proof (cases "shouldRetry (lastErr st) (lastResp st) \<and> retries st < retryCount")
    case False
    then have eq: "retryLoop tr st = st"
      by (subst retryLoop.simps) auto
    from "1.prems"(3) have "retryable (outcome tr s (retries st)) = shouldRetry (lastErr st) (lastResp st)"
      by (simp add: retryable_def flip: "1.prems"(3))
    with False "1.prems" show ?thesis
      by (auto simp: eq)
  next
    case True
    obtain resp' err' s' where tr: "tr (after st) = ((resp', err'), s')"
      by (metis prod.exhaust)
    let ?fx = "[Sleep (2 ^ retries st)]
               @ (case lastResp st of Some r \<Rightarrow> [DiscardBody] | None \<Rightarrow> [])
               @ (case lastResp st of
                    Some r \<Rightarrow> if Response.Status r \<noteq> [] then [LogPreviousFailed (Response.Status r)] else []
                  | None \<Rightarrow> [])
               @ [LogRetry (retries st + 1)]"
    let ?st' = "\<lparr>lastResp = resp', lastErr = err', retries = retries st + 1, after = s',
               effects = effects st @ ?fx\<rparr>"
    have eq: "retryLoop tr st = retryLoop tr ?st'"
      using True tr by (subst retryLoop.simps) (simp add: Let_def)
    have a: "retries ?st' \<le> retryCount" using True by simp
    have b: "after ?st' = state_after tr s (Suc (retries ?st'))"
      using tr "1.prems"(2) by (simp add: state_after_Suc)
    have c: "(lastResp ?st', lastErr ?st') = outcome tr s (retries ?st')"
      using tr "1.prems"(2) by (simp add: outcome_def)
    have ih: "retries ?st' \<le> retries (retryLoop tr ?st')
       \<and> retries (retryLoop tr ?st') \<le> retryCount
       \<and> (lastResp (retryLoop tr ?st'), lastErr (retryLoop tr ?st')) = outcome tr s (retries (retryLoop tr ?st'))
       \<and> (\<forall>i. retries ?st' \<le> i \<and> i < retries (retryLoop tr ?st') \<longrightarrow> retryable (outcome tr s i))
       \<and> (retries (retryLoop tr ?st') < retryCount \<longrightarrow> \<not> retryable (outcome tr s (retries (retryLoop tr ?st'))))"
      by (rule "1.IH" [OF True refl refl refl tr[symmetric] refl a b c])
    have now: "retryable (outcome tr s (retries st))"
      using True by (simp add: retryable_def flip: "1.prems"(3))
    have "\<And>i. retries st \<le> i \<Longrightarrow> i < retries (retryLoop tr ?st') \<Longrightarrow> retryable (outcome tr s i)"
    proof -
      fix i assume "retries st \<le> i" "i < retries (retryLoop tr ?st')"
      then consider "i = retries st" | "retries ?st' \<le> i \<and> i < retries (retryLoop tr ?st')"
        by fastforce
      then show "retryable (outcome tr s i)"
        using now ih by cases auto
    qed
    with ih show ?thesis
      unfolding eq by auto
  qed
qed

lemma RoundTrip_spec:
  "retries (RoundTrip tr s) \<le> retryCount
   \<and> (lastResp (RoundTrip tr s), lastErr (RoundTrip tr s)) = outcome tr s (retries (RoundTrip tr s))
   \<and> (\<forall>i. i < retries (RoundTrip tr s) \<longrightarrow> retryable (outcome tr s i))
   \<and> (retries (RoundTrip tr s) < retryCount \<longrightarrow> \<not> retryable (outcome tr s (retries (RoundTrip tr s))))"
proof -
  obtain resp0 err0 s0 where tr: "tr s = ((resp0, err0), s0)"
    by (metis prod.exhaust)
  let ?st = "\<lparr>lastResp = resp0, lastErr = err0, retries = 0, after = s0, effects = []\<rparr>"
  have eq: "RoundTrip tr s = retryLoop tr ?st"
    by (simp add: RoundTrip_def tr)
  have "retries ?st \<le> retryCount" by simp
  moreover have "after ?st = state_after tr s (Suc (retries ?st))"
    by (simp add: state_after_def tr)
  moreover have "(lastResp ?st, lastErr ?st) = outcome tr s (retries ?st)"
    by (simp add: outcome_def state_after_def tr)
  ultimately show ?thesis
    unfolding eq using retryLoop_spec [of ?st tr s] by simp
qed

lemma shouldRetry_spec:
  "resp \<noteq> None \<or> err \<noteq> None \<Longrightarrow> shouldRetry err resp = retryTrigger_spec err resp"
  by (auto simp: shouldRetry_def retryTrigger_spec_def split: option.splits)

lemma retryable_spec:
  "responseOrError out \<Longrightarrow> retryable out = retryTrigger_spec (snd out) (fst out)"
  by (simp add: retryable_def responseOrError_def shouldRetry_spec)

text \<open>
  Claim C4. For a transport that returns a response or an error, as an
  \<open>http.RoundTripper\<close> does, \<open>shouldRetry\<close> holds exactly when the transport returned
  an error or a response with status 500, 502, 503 or 504. A round trip makes at most 3
  retries and returns the outcome of its last call; every outcome before the last one had
  the trigger, and when fewer than 3 retries were made the last outcome has not. So a
  first response with any other status is returned at once, and after 503, 503 and 200 the
  200 response is returned with no error.
\<close>

theorem RoundTrip_retries:
  "(resp \<noteq> None \<or> err \<noteq> None \<longrightarrow> shouldRetry err resp = retryTrigger_spec err resp)
   \<and> retries (RoundTrip tr s) \<le> 3
   \<and> (lastResp (RoundTrip tr s), lastErr (RoundTrip tr s)) = outcome tr s (retries (RoundTrip tr s))
   \<and> ((\<forall>i \<le> retries (RoundTrip tr s). responseOrError (outcome tr s i)) \<longrightarrow>
        (\<forall>i < retries (RoundTrip tr s).
           retryTrigger_spec (snd (outcome tr s i)) (fst (outcome tr s i)))
        \<and> (retries (RoundTrip tr s) < 3 \<longrightarrow>
             \<not> retryTrigger_spec (snd (outcome tr s (retries (RoundTrip tr s))))
                                 (fst (outcome tr s (retries (RoundTrip tr s))))))
   \<and> (outcome tr s 0 = (Some r, None) \<and> StatusCode r \<notin> {500, 502, 503, 504} \<longrightarrow>
        retries (RoundTrip tr s) = 0 \<and> lastResp (RoundTrip tr s) = Some r
        \<and> lastErr (RoundTrip tr s) = None)
   \<and> (outcome tr s 0 = (Some r0, None) \<and> StatusCode r0 = 503
        \<and> outcome tr s 1 = (Some r1, None) \<and> StatusCode r1 = 503
        \<and> outcome tr s 2 = (Some r2, None) \<and> StatusCode r2 = 200 \<longrightarrow>
        retries (RoundTrip tr s) = 2 \<and> lastResp (RoundTrip tr s) = Some r2
        \<and> lastErr (RoundTrip tr s) = None)"
proof -
  let ?k = "retries (RoundTrip tr s)"
  note spec = RoundTrip_spec [of tr s, unfolded retryCount_def]
  have stop: "\<not> retryable (outcome tr s i) \<Longrightarrow> i \<le> 3 \<Longrightarrow> ?k \<le> i" for i
    using spec by (meson not_le)
  have last: "(lastResp (RoundTrip tr s), lastErr (RoundTrip tr s)) = outcome tr s ?k"
    using spec by simp
  have c0: "(\<forall>i \<le> ?k. responseOrError (outcome tr s i)) \<longrightarrow>
        (\<forall>i < ?k. retryTrigger_spec (snd (outcome tr s i)) (fst (outcome tr s i)))
        \<and> (?k < 3 \<longrightarrow> \<not> retryTrigger_spec (snd (outcome tr s ?k)) (fst (outcome tr s ?k)))"
  proof
    assume conf: "\<forall>i \<le> ?k. responseOrError (outcome tr s i)"
    have "retryTrigger_spec (snd (outcome tr s i)) (fst (outcome tr s i))" if "i < ?k" for i
    proof -
      from that spec have "retryable (outcome tr s i)" by simp
      moreover from that conf have "responseOrError (outcome tr s i)" by simp
      ultimately show ?thesis by (simp add: retryable_spec)
    qed
    moreover have "\<not> retryTrigger_spec (snd (outcome tr s ?k)) (fst (outcome tr s ?k))" if "?k < 3"
    proof -
      from that spec have "\<not> retryable (outcome tr s ?k)" by simp
      moreover from conf have "responseOrError (outcome tr s ?k)" by simp
      ultimately show ?thesis by (simp add: retryable_spec)
    qed
    ultimately show "(\<forall>i < ?k. retryTrigger_spec (snd (outcome tr s i)) (fst (outcome tr s i)))
        \<and> (?k < 3 \<longrightarrow> \<not> retryTrigger_spec (snd (outcome tr s ?k)) (fst (outcome tr s ?k)))"
      by blast
  qed
  have c1: "outcome tr s 0 = (Some r, None) \<and> StatusCode r \<notin> {500, 502, 503, 504} \<longrightarrow>
        ?k = 0 \<and> lastResp (RoundTrip tr s) = Some r \<and> lastErr (RoundTrip tr s) = None"
  proof
    assume a: "outcome tr s 0 = (Some r, None) \<and> StatusCode r \<notin> {500, 502, 503, 504}"
    then have "\<not> retryable (outcome tr s 0)"
      by (simp add: retryable_def shouldRetry_def)
    then have "?k = 0" using stop [of 0] by simp
    with a last show "?k = 0 \<and> lastResp (RoundTrip tr s) = Some r \<and> lastErr (RoundTrip tr s) = None"
      by simp
  qed
  have c2: "outcome tr s 0 = (Some r0, None) \<and> StatusCode r0 = 503
        \<and> outcome tr s 1 = (Some r1, None) \<and> StatusCode r1 = 503
        \<and> outcome tr s 2 = (Some r2, None) \<and> StatusCode r2 = 200 \<longrightarrow>
        ?k = 2 \<and> lastResp (RoundTrip tr s) = Some r2 \<and> lastErr (RoundTrip tr s) = None"
  proof
    assume a: "outcome tr s 0 = (Some r0, None) \<and> StatusCode r0 = 503
        \<and> outcome tr s 1 = (Some r1, None) \<and> StatusCode r1 = 503
        \<and> outcome tr s 2 = (Some r2, None) \<and> StatusCode r2 = 200"
    then have r: "retryable (outcome tr s 0)" "retryable (outcome tr s 1)"
        "\<not> retryable (outcome tr s 2)"
      by (simp_all add: retryable_def shouldRetry_def)
    have "?k \<le> 2" using stop [of 2] r(3) by simp
    moreover have "?k \<noteq> 0"
    proof
      assume "?k = 0"
      with spec have "\<not> retryable (outcome tr s 0)" by simp
      with r(1) show False by simp
    qed
    moreover have "?k \<noteq> 1"
    proof
      assume "?k = 1"
      with spec have "\<not> retryable (outcome tr s 1)" by simp
      with r(2) show False by simp
    qed
    ultimately have "?k = 2" by simp
    with a last show "?k = 2 \<and> lastResp (RoundTrip tr s) = Some r2 \<and> lastErr (RoundTrip tr s) = None"
      by simp
  qed
  have s0: "resp \<noteq> None \<or> err \<noteq> None \<longrightarrow> shouldRetry err resp = retryTrigger_spec err resp"
    by (simp add: shouldRetry_spec)
  from spec have k3: "?k \<le> 3" by simp
  show ?thesis
    by (intro conjI s0 k3 last c0 c1 c2)
qed

text \<open>
  A transport answering 503, 503, 200 gives the 200 response after two retries: 503 has
  the trigger, 200 has not. One answering 404 gives the 404 response with no retry.
\<close>

theorem RoundTrip_retries_witness:
  "retries (RoundTrip scripted [(Some (status_only 503), None), (Some (status_only 503), None),
        (Some (status_only 200), None)]) = 2
   \<and> lastResp (RoundTrip scripted [(Some (status_only 503), None), (Some (status_only 503), None),
        (Some (status_only 200), None)]) = Some (status_only 200)
   \<and> lastErr (RoundTrip scripted [(Some (status_only 503), None), (Some (status_only 503), None),
        (Some (status_only 200), None)]) = None
   \<and> retryTrigger_spec None (Some (status_only 503))
   \<and> \<not> retryTrigger_spec None (Some (status_only 200))
   \<and> retries (RoundTrip scripted [(Some (status_only 404), None)]) = 0
   \<and> lastResp (RoundTrip scripted [(Some (status_only 404), None)]) = Some (status_only 404)
   \<and> lastErr (RoundTrip scripted [(Some (status_only 404), None)]) = None"
proof -
  let ?s = "[(Some (status_only 503), None), (Some (status_only 503), None),
        (Some (status_only 200), None)]"
  have o: "outcome scripted ?s 0 = (Some (status_only 503), None)"
      "outcome scripted ?s 1 = (Some (status_only 503), None)"
      "outcome scripted ?s 2 = (Some (status_only 200), None)"
      "outcome scripted [(Some (status_only 404), None)] 0 = (Some (status_only 404), None)"
    by (simp_all add: outcome_def state_after_def numeral_2_eq_2)
  have st: "StatusCode (status_only 503) = 503" "StatusCode (status_only 200) = 200"
      "StatusCode (status_only 404) \<notin> {500, 502, 503, 504}"
    by (simp_all add: status_only_def)
  note exact = RoundTrip_retries [THEN conjunct2, THEN conjunct2, THEN conjunct2, THEN conjunct1,
      rule_format]
  note other = RoundTrip_retries [THEN conjunct2, THEN conjunct2, THEN conjunct2, THEN conjunct2,
      THEN conjunct1, rule_format]
  note twice = RoundTrip_retries [THEN conjunct2, THEN conjunct2, THEN conjunct2, THEN conjunct2,
      THEN conjunct2, rule_format]
  have a: "retries (RoundTrip scripted ?s) = 2 \<and> lastResp (RoundTrip scripted ?s) = Some (status_only 200)
      \<and> lastErr (RoundTrip scripted ?s) = None"
    by (rule twice [where ?r0.0 = "status_only 503" and ?r1.0 = "status_only 503"]) (intro conjI o st)
  then have k: "retries (RoundTrip scripted ?s) = 2" by blast
  have conf: "responseOrError (outcome scripted ?s i)" if "i \<le> retries (RoundTrip scripted ?s)" for i
  proof -
    from that k consider "i = 0" | "i = 1" | "i = 2" by linarith
    then show ?thesis
      by cases (simp_all only: o responseOrError_def fst_conv snd_conv, simp_all)
  qed
  have t: "retryTrigger_spec (snd (outcome scripted ?s 0)) (fst (outcome scripted ?s 0))"
    using exact [of scripted ?s] conf k by simp
  have n: "\<not> retryTrigger_spec (snd (outcome scripted ?s (retries (RoundTrip scripted ?s))))
      (fst (outcome scripted ?s (retries (RoundTrip scripted ?s))))"
    using exact [of scripted ?s] conf k by simp
  have t': "retryTrigger_spec None (Some (status_only 503))"
    using t by (simp only: o fst_conv snd_conv)
  have n': "\<not> retryTrigger_spec None (Some (status_only 200))"
    using n by (simp only: k o fst_conv snd_conv not_False_eq_True)
  have b: "retries (RoundTrip scripted [(Some (status_only 404), None)]) = 0
      \<and> lastResp (RoundTrip scripted [(Some (status_only 404), None)]) = Some (status_only 404)
      \<and> lastErr (RoundTrip scripted [(Some (status_only 404), None)]) = None"
    by (rule other) (intro conjI o st)
  from a t' n' b show ?thesis by blast
qed

text \<open>
  The guard of lines 94 to 96: were a transport to return neither a response nor an error,
  the request would be retried as well.
\<close>

lemma shouldRetry_nil_response: "shouldRetry None None"
  by (simp add: shouldRetry_def)

section \<open>Properties of the concurrent harvest\<close>

lemma rendered_example_window:
  "rendered (example_env d) (example_bucket i currentWindowType) [example_event ''firefox'']
     = [''currentwindow,client=aw-watcher-window,hostname=desktop,app=firefox duration=25.523 1741974028'' @ [CHR 0x0A]]"
  by (simp add: rendered_def render_example_window)

lemma rendered_example_afk:
  "rendered (example_env d) (example_bucket i afkType) [example_event ''firefox'']
     = [''afkstatus,client=aw-watcher-window,hostname=desktop duration=25.523,status=''
        @ [CHR 0x22] @ ''firefox'' @ [CHR 0x22] @ '' 1741974028'' @ [CHR 0x0A]]"
  by (simp add: rendered_def renderEvent_def example_defs afkType_def webTabCurrentType_def
      appEditorType_def currentWindowType_def stopwatchType_def fmtInt_example
      escapeTagValue_desktop)

text \<open>
  Claim C9 at two sources with one record each. After each goroutine has taken one step,
  both are inside \<open>WriteString\<close> at once; when each then takes its second step, the
  buffer holds the record of the second source only, while the tasks run one after the
  other give both records.
\<close>

theorem appends_not_exclusive:
  "length (filter inside (snd (schedule [0, 1]
      ([], map (spawn (example_env (example_Do [] ''firefox'' 204 [])) example_config)
             [example_bucket ''b1'' currentWindowType, example_bucket ''b2'' afkType])))) = 2
   \<and> fst (schedule [0, 1, 0, 1]
      ([], map (spawn (example_env (example_Do [] ''firefox'' 204 [])) example_config)
             [example_bucket ''b1'' currentWindowType, example_bucket ''b2'' afkType]))
     = ''afkstatus,client=aw-watcher-window,hostname=desktop duration=25.523,status=''
        @ [CHR 0x22] @ ''firefox'' @ [CHR 0x22] @ '' 1741974028'' @ [CHR 0x0A]
   \<and> payload (harvest (example_env (example_Do [] ''firefox'' 204 [])) example_config
             [example_bucket ''b1'' currentWindowType, example_bucket ''b2'' afkType])
     = ''currentwindow,client=aw-watcher-window,hostname=desktop,app=firefox duration=25.523 1741974028'' @ [CHR 0x0A]
       @ ''afkstatus,client=aw-watcher-window,hostname=desktop duration=25.523,status=''
       @ [CHR 0x22] @ ''firefox'' @ [CHR 0x22] @ '' 1741974028'' @ [CHR 0x0A]"
proof -
  let ?e = "example_env (example_Do [] ''firefox'' 204 [])"
  let ?w = "''currentwindow,client=aw-watcher-window,hostname=desktop,app=firefox duration=25.523 1741974028'' @ [CHR 0x0A]"
  let ?a = "''afkstatus,client=aw-watcher-window,hostname=desktop duration=25.523,status=''
        @ [CHR 0x22] @ ''firefox'' @ [CHR 0x22] @ '' 1741974028'' @ [CHR 0x0A]"
  have f: "fetched ?e example_config (example_bucket i t) = Some [example_event ''firefox'']" for i t
    by (simp add: fetched_def example_defs)
  have s1: "spawn ?e example_config (example_bucket ''b1'' currentWindowType)
      = \<lparr>seen = None, todo = [Load, Store ?w]\<rparr>"
    by (simp add: spawn_def accesses_def f rendered_example_window WriteString_def)
  have s2: "spawn ?e example_config (example_bucket ''b2'' afkType)
      = \<lparr>seen = None, todo = [Load, Store ?a]\<rparr>"
    by (simp add: spawn_def accesses_def f rendered_example_afk WriteString_def)
  have p: "payload (harvest ?e example_config
             [example_bucket ''b1'' currentWindowType, example_bucket ''b2'' afkType]) = ?w @ ?a"
    by (simp add: harvest_payload records_def f rendered_example_window rendered_example_afk)
  show ?thesis
    unfolding p by (simp add: s1 s2 inside_def)
qed

end
